theory Spec2Isabelle
  imports Main
begin

section \<open>Go values the service passes around\<close>

subsection \<open>Errors\<close>

text \<open>
  A Go \<open>error\<close> is a value. The repository package declares sentinel errors
  (\<open>internal/repository/errors.go\<close>); every other error of the program is built by
  \<open>fmt.Errorf\<close>, either from a text alone or, with the verb \<open>%w\<close>, around another
  error. The service compares errors with \<open>==\<close>, which is identity of the value and
  not \<open>errors.Is\<close>: an error wrapped by \<open>%w\<close> is a different value from the sentinel
  it wraps. The datatype keeps that difference: \<open>Wrapf p e\<close> is
  \<open>fmt.Errorf(p + ": %w", e)\<close>, \<open>Errorf m\<close> is \<open>fmt.Errorf(m)\<close>, and \<open>External m\<close> is
  an error made outside the repository (database driver, Redis client, JWT library,
  bcrypt) whose text is \<open>m\<close>.
\<close>

datatype err =
    ErrNotFound
  | ErrDuplicateEmail
  | ErrDuplicateToken
  | External string
  | Errorf string
  | Wrapf string err

text \<open>The method \<open>Error()\<close>: the text of an error.\<close>

fun Error :: "err \<Rightarrow> string" where
  "Error ErrNotFound = ''record not found''"
| "Error ErrDuplicateEmail = ''user with this email already exists''"
| "Error ErrDuplicateToken = ''token with this hash already exists''"
| "Error (External m) = m"
| "Error (Errorf m) = m"
| "Error (Wrapf p e) = p @ '': '' @ Error e"

subsection \<open>Time\<close>

text \<open>
  A \<open>time.Time\<close> is modelled by its nanoseconds since the Unix epoch and a
  \<open>time.Duration\<close> by its nanoseconds, both unbounded integers. \<open>Unix\<close> is the
  method \<open>Time.Unix()\<close>: whole seconds since the epoch, rounded down. Every operation
  of the service reads the clock; the model hands one reading \<open>now\<close> to each call.
\<close>

type_synonym time = int
type_synonym duration = int

definition Second :: duration where
  "Second = 1000000000"

definition Minute :: duration where
  "Minute = 60 * Second"

definition Unix :: "time \<Rightarrow> int" where
  "Unix t = t div Second"

text \<open>\<open>time.Unix(sec, 0)\<close>: the instant of a whole second.\<close>

definition time_Unix :: "int \<Rightarrow> time" where
  "time_Unix sec = sec * Second"

section \<open>internal/utils/validator.go\<close>

text \<open>
  Strings are byte strings. The character classes of the e-mail pattern and of the
  password rule are ASCII ranges, so they are the same on bytes as on runes.
\<close>

definition is_upper :: "char \<Rightarrow> bool" where
  "is_upper c = ((65::nat) \<le> of_char c \<and> of_char c \<le> (90::nat))"

definition is_lower :: "char \<Rightarrow> bool" where
  "is_lower c = ((97::nat) \<le> of_char c \<and> of_char c \<le> (122::nat))"

definition is_digit :: "char \<Rightarrow> bool" where
  "is_digit c = ((48::nat) \<le> of_char c \<and> of_char c \<le> (57::nat))"

definition is_alpha :: "char \<Rightarrow> bool" where
  "is_alpha c = (is_upper c \<or> is_lower c)"

text \<open>The class \<open>[a-zA-Z0-9._%+\-]\<close> of the local part.\<close>

definition local_char :: "char \<Rightarrow> bool" where
  "local_char c = (is_alpha c \<or> is_digit c \<or> c \<in> set ''._%+-'')"

text \<open>The class \<open>[a-zA-Z0-9.\-]\<close> of the domain.\<close>

definition domain_char :: "char \<Rightarrow> bool" where
  "domain_char c = (is_alpha c \<or> is_digit c \<or> c \<in> set ''.-'')"

text \<open>
  \<open>ValidateEmail\<close> matches the whole string against
  \<open>^[a-zA-Z0-9._%+\-]+@[a-zA-Z0-9.\-]+\.[a-zA-Z]{2,}$\<close>. No class of the pattern holds
  \<open>@\<close>, so the local part is what stands before the first \<open>@\<close>; the last class
  holds no dot, so the top-level domain is what stands after the last dot of the rest.
\<close>

definition ValidateEmail :: "string \<Rightarrow> bool" where
  "ValidateEmail email =
     (let local_part = takeWhile (\<lambda>c. c \<noteq> CHR ''@'') email;
          rest = dropWhile (\<lambda>c. c \<noteq> CHR ''@'') email
      in case rest of
           [] \<Rightarrow> False
         | _ # host \<Rightarrow>
             (let tld = rev (takeWhile (\<lambda>c. c \<noteq> CHR ''.'') (rev host));
                  dom = rev (drop 1 (dropWhile (\<lambda>c. c \<noteq> CHR ''.'') (rev host)))
              in local_part \<noteq> [] \<and> list_all local_char local_part \<and>
                 CHR ''.'' \<in> set host \<and>
                 dom \<noteq> [] \<and> list_all domain_char dom \<and>
                 2 \<le> length tld \<and> list_all is_alpha tld))"

text \<open>
  \<open>ValidatePassword\<close>: at least 8 bytes, and the loop over the characters has seen an
  upper-case letter, a lower-case letter and a digit.
\<close>

definition ValidatePassword :: "string \<Rightarrow> bool" where
  "ValidatePassword password =
     (if length password < 8 then False
      else list_ex is_upper password \<and> list_ex is_lower password \<and> list_ex is_digit password)"

text \<open>
  \<open>strings.TrimSpace\<close> and \<open>strings.ToLower\<close>, on ASCII: the white space trimmed is
  tab, line feed, vertical tab, form feed, carriage return and space, and the letters
  lowered are \<open>A\<close> to \<open>Z\<close>. Bytes outside ASCII are left as they are.
\<close>

definition is_space :: "char \<Rightarrow> bool" where
  "is_space c = (((9::nat) \<le> of_char c \<and> of_char c \<le> (13::nat)) \<or> of_char c = (32::nat))"

definition TrimSpace :: "string \<Rightarrow> string" where
  "TrimSpace s = rev (dropWhile is_space (rev (dropWhile is_space s)))"

definition to_lower_char :: "char \<Rightarrow> char" where
  "to_lower_char c = (if is_upper c then char_of (of_char c + (32::nat)) else c)"

definition ToLower :: "string \<Rightarrow> string" where
  "ToLower s = map to_lower_char s"

definition SanitizeEmail :: "string \<Rightarrow> string" where
  "SanitizeEmail email = ToLower (TrimSpace email)"

section \<open>internal/utils/jwt.go\<close>

subsection \<open>The JWT library\<close>

text \<open>
  \<open>github.com/golang-jwt/jwt/v5\<close> is not part of the repository. A token string is
  modelled by what it decodes to, since the compact serialization is one-to-one: a
  string that is not three well-formed segments is \<open>Opaque\<close>, and a compact token is
  \<open>Compact alg claims sig\<close> with the signing method of its header, its claims in the
  order of the JSON object, and \<open>sig\<close> the key under which its signature verifies
  (HMAC is modelled as unforgeable: the signature verifies under the key that made it
  and under no other). A JSON number is modelled by an integer, which is what the
  manager writes into \<open>exp\<close> and \<open>iat\<close>; Go decodes it to \<open>float64\<close>.
\<close>

datatype jval = JString string | JNumber int | JOther

type_synonym MapClaims = "(string \<times> jval) list"

datatype SigningMethod = SigningMethodHMAC string | SigningMethodOther string

datatype token_string = Opaque string | Compact SigningMethod MapClaims string

text \<open>\<open>claims[k]\<close>: when a JSON object repeats a key, the decoder keeps the last one.\<close>

definition claim :: "MapClaims \<Rightarrow> string \<Rightarrow> jval option" where
  "claim cs k = map_of (rev cs) k"

record Token =
  Method :: SigningMethod
  Claims :: MapClaims
  Valid :: bool

text \<open>
  \<open>jwt.Parse(tokenString, keyFunc)\<close> at clock reading \<open>now\<close>, in the order of version 5:
  decode the segments, ask \<open>keyFunc\<close> for the key, verify the signature, then validate
  the registered claims (\<open>exp\<close>, when present, must be a number and lie after \<open>now\<close>;
  \<open>nbf\<close>, when present, must be a number and not lie after \<open>now\<close>). Only a token that
  passed all of it is returned with \<open>Valid\<close> set and no error.
\<close>

definition validate_exp :: "time \<Rightarrow> MapClaims \<Rightarrow> err option" where
  "validate_exp now cs =
     (case claim cs ''exp'' of
        None \<Rightarrow> None
      | Some (JNumber e) \<Rightarrow>
          if now < time_Unix e then None
          else Some (External ''token has invalid claims: token is expired'')
      | Some _ \<Rightarrow> Some (External ''token has invalid claims: exp is invalid''))"

definition validate_nbf :: "time \<Rightarrow> MapClaims \<Rightarrow> err option" where
  "validate_nbf now cs =
     (case claim cs ''nbf'' of
        None \<Rightarrow> None
      | Some (JNumber n) \<Rightarrow>
          if now < time_Unix n then Some (External ''token has invalid claims: token is not valid yet'')
          else None
      | Some _ \<Rightarrow> Some (External ''token has invalid claims: nbf is invalid''))"

definition jwt_Parse :: "(SigningMethod \<Rightarrow> err + string) \<Rightarrow> time \<Rightarrow> token_string \<Rightarrow> err + Token" where
  "jwt_Parse keyFunc now tokenString =
     (case tokenString of
        Opaque _ \<Rightarrow> Inl (External ''token is malformed'')
      | Compact alg cs sig \<Rightarrow>
          (case keyFunc alg of
             Inl e \<Rightarrow> Inl (Wrapf ''token is unverifiable: error while executing keyfunc'' e)
           | Inr k \<Rightarrow>
               if sig \<noteq> k then Inl (External ''token signature is invalid: signature is invalid'')
               else (case validate_exp now cs of
                       Some e \<Rightarrow> Inl e
                     | None \<Rightarrow>
                         (case validate_nbf now cs of
                            Some e \<Rightarrow> Inl e
                          | None \<Rightarrow> Inr \<lparr>Method = alg, Claims = cs, Valid = True\<rparr>))))"

text \<open>\<open>jwt.NewWithClaims(m, claims)\<close> followed by \<open>SignedString(key)\<close> with a byte-slice key.\<close>

definition SignedString :: "SigningMethod \<Rightarrow> MapClaims \<Rightarrow> string \<Rightarrow> err + token_string" where
  "SignedString alg cs k = Inr (Compact alg cs k)"

definition SigningMethodHS256 :: SigningMethod where
  "SigningMethodHS256 = SigningMethodHMAC ''HS256''"

definition alg_name :: "SigningMethod \<Rightarrow> string" where
  "alg_name alg = (case alg of SigningMethodHMAC n \<Rightarrow> n | SigningMethodOther n \<Rightarrow> n)"

subsection \<open>JWTManager\<close>

record JWTManager =
  secret :: string
  accessTokenExpiry :: duration
  refreshTokenExpiry :: duration

text \<open>\<open>domain.TokenClaims\<close> and its method \<open>IsExpired\<close> (\<open>internal/domain/token.go\<close>).\<close>

record TokenClaims =
  tc_UserID :: string
  tc_Email :: string
  tc_Exp :: int
  tc_Iat :: int

definition IsExpired :: "time \<Rightarrow> TokenClaims \<Rightarrow> bool" where
  "IsExpired now tc = (Unix now > tc_Exp tc)"

text \<open>
  The claims are a Go map; the JSON encoder writes a map's keys in sorted order, which
  is the order of the lists below.
\<close>

definition GenerateAccessToken :: "JWTManager \<Rightarrow> time \<Rightarrow> string \<Rightarrow> string \<Rightarrow> err + token_string" where
  "GenerateAccessToken j now userID email =
     (case SignedString SigningMethodHS256
             [(''email'', JString email),
              (''exp'', JNumber (Unix (now + accessTokenExpiry j))),
              (''iat'', JNumber (Unix now)),
              (''user_id'', JString userID)] (secret j) of
        Inl e \<Rightarrow> Inl (Wrapf ''failed to sign token'' e)
      | Inr tokenString \<Rightarrow> Inr tokenString)"

text \<open>\<open>jti\<close> is the string of the fresh UUID that \<open>uuid.New()\<close> draws.\<close>

definition GenerateRefreshToken :: "JWTManager \<Rightarrow> time \<Rightarrow> string \<Rightarrow> string \<Rightarrow> err + token_string" where
  "GenerateRefreshToken j now jti userID =
     (case SignedString SigningMethodHS256
             [(''exp'', JNumber (Unix (now + refreshTokenExpiry j))),
              (''iat'', JNumber (Unix now)),
              (''jti'', JString jti),
              (''type'', JString ''refresh''),
              (''user_id'', JString userID)] (secret j) of
        Inl e \<Rightarrow> Inl (Wrapf ''failed to sign refresh token'' e)
      | Inr tokenString \<Rightarrow> Inr tokenString)"

text \<open>The key function both validators hand to \<open>jwt.Parse\<close>.\<close>

definition keyFunc :: "JWTManager \<Rightarrow> SigningMethod \<Rightarrow> err + string" where
  "keyFunc j alg =
     (case alg of
        SigningMethodHMAC _ \<Rightarrow> Inr (secret j)
      | SigningMethodOther _ \<Rightarrow> Inl (Errorf (''unexpected signing method: '' @ alg_name alg)))"

definition jwt_ValidateToken :: "JWTManager \<Rightarrow> time \<Rightarrow> token_string \<Rightarrow> err + TokenClaims" where
  "jwt_ValidateToken j now tokenString =
     (case jwt_Parse (keyFunc j) now tokenString of
        Inl e \<Rightarrow> Inl (Wrapf ''failed to parse token'' e)
      | Inr token \<Rightarrow>
          if \<not> Valid token then Inl (Errorf ''invalid token'')
          else
            (case claim (Claims token) ''user_id'' of
               Some (JString userID) \<Rightarrow>
                 (case claim (Claims token) ''email'' of
                    Some (JString email) \<Rightarrow>
                      (case claim (Claims token) ''exp'' of
                         Some (JNumber exp) \<Rightarrow>
                           (case claim (Claims token) ''iat'' of
                              Some (JNumber iat) \<Rightarrow>
                                (let tokenClaims =
                                       \<lparr>tc_UserID = userID, tc_Email = email, tc_Exp = exp, tc_Iat = iat\<rparr>
                                 in if IsExpired now tokenClaims then Inl (Errorf ''token is expired'')
                                    else Inr tokenClaims)
                            | _ \<Rightarrow> Inl (Errorf ''invalid iat in token''))
                       | _ \<Rightarrow> Inl (Errorf ''invalid exp in token''))
                  | _ \<Rightarrow> Inl (Errorf ''invalid email in token''))
             | _ \<Rightarrow> Inl (Errorf ''invalid user_id in token'')))"

definition ValidateRefreshToken :: "JWTManager \<Rightarrow> time \<Rightarrow> token_string \<Rightarrow> err + string" where
  "ValidateRefreshToken j now tokenString =
     (case jwt_Parse (keyFunc j) now tokenString of
        Inl e \<Rightarrow> Inl (Wrapf ''failed to parse token'' e)
      | Inr token \<Rightarrow>
          if \<not> Valid token then Inl (Errorf ''invalid token'')
          else if claim (Claims token) ''type'' \<noteq> Some (JString ''refresh'')
          then Inl (Errorf ''invalid token type'')
          else
            (case claim (Claims token) ''user_id'' of
               Some (JString userID) \<Rightarrow>
                 (case claim (Claims token) ''exp'' of
                    Some (JNumber exp) \<Rightarrow>
                      if Unix now > exp then Inl (Errorf ''token is expired'')
                      else Inr userID
                  | _ \<Rightarrow> Inl (Errorf ''invalid exp in token''))
             | _ \<Rightarrow> Inl (Errorf ''invalid user_id in token'')))"

text \<open>\<open>int(d.Seconds())\<close>: the whole seconds of a duration, rounded towards zero.\<close>

definition Seconds :: "duration \<Rightarrow> int" where
  "Seconds d = (if 0 \<le> d then d div Second else - ((- d) div Second))"

definition GetAccessTokenExpiry :: "JWTManager \<Rightarrow> int" where
  "GetAccessTokenExpiry j = Seconds (accessTokenExpiry j)"

section \<open>The stores\<close>

subsection \<open>internal/domain/user.go\<close>

record User =
  u_ID :: string
  u_Email :: string
  u_PasswordHash :: string
  u_CreatedAt :: time
  u_UpdatedAt :: time
  u_LastLoginAt :: "time option"
  u_IsActive :: bool
  u_IsEmailVerified :: bool

record RefreshToken =
  rt_ID :: string
  rt_UserID :: string
  rt_TokenHash :: string
  rt_ExpiresAt :: time
  rt_CreatedAt :: time
  rt_DeviceInfo :: "string option"
  rt_IPAddress :: "string option"

subsection \<open>PostgreSQL\<close>

text \<open>
  The database is its two tables, each the list of its rows in the order of insertion.
  A call of the driver either goes through or fails (connection lost, deadline passed):
  every repository function takes \<open>fault\<close>, the text of the driver's error on this
  call, or \<open>None\<close> when the statement runs. The zero \<open>time.Time\<close> of a struct that
  was never stamped is the reading \<open>zero_time\<close>.
\<close>

record Postgres =
  users :: "User list"
  refresh_tokens :: "RefreshToken list"

definition zero_time :: time where
  "zero_time = - 62135596800 * Second"

subsection \<open>userRepository\<close>

text \<open>
  Migration \<open>000001_init_users\<close>: \<open>id\<close> is the primary key and \<open>email\<close> is
  \<open>UNIQUE\<close>; the comparison of \<open>WHERE email = $1\<close> is equality of the strings. An
  insert that breaks either constraint is the driver's error 23505.
\<close>

definition user_Create :: "string option \<Rightarrow> string \<Rightarrow> time \<Rightarrow> Postgres \<Rightarrow> User \<Rightarrow> (err + User) \<times> Postgres" where
  "user_Create fault uuid now db user =
     (let user1 = (if u_ID user = [] then user\<lparr>u_ID := uuid\<rparr> else user);
          user2 = (if u_CreatedAt user1 = zero_time then user1\<lparr>u_CreatedAt := now\<rparr> else user1);
          user3 = (if u_UpdatedAt user2 = zero_time then user2\<lparr>u_UpdatedAt := now\<rparr> else user2)
      in case fault of
           Some m \<Rightarrow> (Inl (Wrapf ''failed to create user'' (External m)), db)
         | None \<Rightarrow>
             if list_ex (\<lambda>u. u_ID u = u_ID user3 \<or> u_Email u = u_Email user3) (users db)
             then (Inl (Wrapf (''user with email '' @ u_Email user3 @ '' already exists'') ErrDuplicateEmail), db)
             else (Inr user3, db\<lparr>users := users db @ [user3]\<rparr>))"

definition user_GetByEmail :: "string option \<Rightarrow> Postgres \<Rightarrow> string \<Rightarrow> err + User" where
  "user_GetByEmail fault db email =
     (case fault of
        Some m \<Rightarrow> Inl (Wrapf ''failed to get user by email'' (External m))
      | None \<Rightarrow>
          (case find (\<lambda>u. u_Email u = email) (users db) of
             None \<Rightarrow> Inl (Wrapf (''user with email '' @ email @ '' not found'') ErrNotFound)
           | Some user \<Rightarrow> Inr user))"

definition user_GetByID :: "string option \<Rightarrow> Postgres \<Rightarrow> string \<Rightarrow> err + User" where
  "user_GetByID fault db ident =
     (case fault of
        Some m \<Rightarrow> Inl (Wrapf ''failed to get user by id'' (External m))
      | None \<Rightarrow>
          (case find (\<lambda>u. u_ID u = ident) (users db) of
             None \<Rightarrow> Inl (Wrapf (''user with id '' @ ident @ '' not found'') ErrNotFound)
           | Some user \<Rightarrow> Inr user))"

definition user_UpdateLastLogin :: "string option \<Rightarrow> time \<Rightarrow> Postgres \<Rightarrow> string \<Rightarrow> err option \<times> Postgres" where
  "user_UpdateLastLogin fault now db userID =
     (case fault of
        Some m \<Rightarrow> (Some (Wrapf ''failed to update last login'' (External m)), db)
      | None \<Rightarrow>
          if \<not> list_ex (\<lambda>u. u_ID u = userID) (users db)
          then (Some (Wrapf (''user with id '' @ userID @ '' not found'') ErrNotFound), db)
          else (None, db\<lparr>users :=
                  map (\<lambda>u. if u_ID u = userID then u\<lparr>u_LastLoginAt := Some now\<rparr> else u) (users db)\<rparr>))"

subsection \<open>tokenRepository\<close>

text \<open>
  Modelled from the spec: the migration that creates \<open>refresh_tokens\<close> is not among
  the sources. The spec's data model says of a RefreshTokenRecord that its digest is
  unique, and \<open>Create\<close> reads the driver's error 23505 as a duplicate token hash; the
  table is taken with \<open>id\<close> as its primary key and \<open>token_hash\<close> unique.
\<close>

definition token_Create :: "string option \<Rightarrow> string \<Rightarrow> time \<Rightarrow> Postgres \<Rightarrow> RefreshToken \<Rightarrow> (err + RefreshToken) \<times> Postgres" where
  "token_Create fault uuid now db token =
     (let token1 = (if rt_ID token = [] then token\<lparr>rt_ID := uuid\<rparr> else token);
          token2 = (if rt_CreatedAt token1 = zero_time then token1\<lparr>rt_CreatedAt := now\<rparr> else token1)
      in case fault of
           Some m \<Rightarrow> (Inl (Wrapf ''failed to create token'' (External m)), db)
         | None \<Rightarrow>
             if list_ex (\<lambda>t. rt_ID t = rt_ID token2 \<or> rt_TokenHash t = rt_TokenHash token2) (refresh_tokens db)
             then (Inl (Wrapf ''token with hash already exists'' ErrDuplicateToken), db)
             else (Inr token2, db\<lparr>refresh_tokens := refresh_tokens db @ [token2]\<rparr>))"

definition token_GetByTokenHash :: "string option \<Rightarrow> Postgres \<Rightarrow> string \<Rightarrow> err + RefreshToken" where
  "token_GetByTokenHash fault db tokenHash =
     (case fault of
        Some m \<Rightarrow> Inl (Wrapf ''failed to get token by hash'' (External m))
      | None \<Rightarrow>
          (case find (\<lambda>t. rt_TokenHash t = tokenHash) (refresh_tokens db) of
             None \<Rightarrow> Inl (Wrapf ''token with hash not found'' ErrNotFound)
           | Some token \<Rightarrow> Inr token))"

definition token_DeleteByTokenHash :: "string option \<Rightarrow> Postgres \<Rightarrow> string \<Rightarrow> err option \<times> Postgres" where
  "token_DeleteByTokenHash fault db tokenHash =
     (case fault of
        Some m \<Rightarrow> (Some (Wrapf ''failed to delete token by hash'' (External m)), db)
      | None \<Rightarrow>
          if \<not> list_ex (\<lambda>t. rt_TokenHash t = tokenHash) (refresh_tokens db)
          then (Some (Wrapf ''token with hash not found'' ErrNotFound), db)
          else (None, db\<lparr>refresh_tokens := filter (\<lambda>t. rt_TokenHash t \<noteq> tokenHash) (refresh_tokens db)\<rparr>))"

definition token_DeleteExpired :: "string option \<Rightarrow> time \<Rightarrow> Postgres \<Rightarrow> err option \<times> Postgres" where
  "token_DeleteExpired fault now db =
     (case fault of
        Some m \<Rightarrow> (Some (Wrapf ''failed to delete expired tokens'' (External m)), db)
      | None \<Rightarrow> (None, db\<lparr>refresh_tokens := filter (\<lambda>t. \<not> rt_ExpiresAt t < now) (refresh_tokens db)\<rparr>))"

subsection \<open>Redis\<close>

text \<open>
  The two families of keys, \<open>blacklist:token:<token>\<close> and \<open>ratelimit:<key>\<close>, differ
  in their first letter and never collide, so each family is a map of its own: the
  string keys by the token they name, the sorted sets by the client key. A key holds
  the instant at which it expires, \<open>None\<close> when it has no time to live; an expired key
  is gone for every command. A sorted set is the list of its members with their
  scores, no member twice. The client's commands are modelled by their contract, with
  durations taken as they are given; \<open>fault\<close> is as for the database.
\<close>

record zset =
  members :: "(string \<times> int) list"
  z_expires :: "time option"

record Redis =
  strings :: "token_string \<rightharpoonup> time option"
  zsets :: "string \<rightharpoonup> zset"

definition alive :: "time \<Rightarrow> time option \<Rightarrow> bool" where
  "alive now ex = (case ex of None \<Rightarrow> True | Some t \<Rightarrow> now < t)"

text \<open>\<open>SET key "1"\<close> with an expiration: a positive one is the key's time to live, any other leaves the key without one.\<close>

definition redis_Set :: "string option \<Rightarrow> time \<Rightarrow> Redis \<Rightarrow> token_string \<Rightarrow> duration \<Rightarrow> err option \<times> Redis" where
  "redis_Set fault now r k expiration =
     (case fault of
        Some m \<Rightarrow> (Some (External m), r)
      | None \<Rightarrow>
          (None, r\<lparr>strings := (strings r)(k \<mapsto> (if 0 < expiration then Some (now + expiration) else None))\<rparr>))"

definition redis_Exists :: "string option \<Rightarrow> time \<Rightarrow> Redis \<Rightarrow> token_string \<Rightarrow> err + int" where
  "redis_Exists fault now r k =
     (case fault of
        Some m \<Rightarrow> Inl (External m)
      | None \<Rightarrow>
          (case strings r k of
             None \<Rightarrow> Inr 0
           | Some ex \<Rightarrow> if alive now ex then Inr 1 else Inr 0))"

definition redis_Del :: "string option \<Rightarrow> Redis \<Rightarrow> token_string \<Rightarrow> err option \<times> Redis" where
  "redis_Del fault r k =
     (case fault of
        Some m \<Rightarrow> (Some (External m), r)
      | None \<Rightarrow> (None, r\<lparr>strings := (strings r)(k := None)\<rparr>))"

text \<open>The sorted set under a key at \<open>now\<close>: none when the key is absent or has expired.\<close>

definition zget :: "time \<Rightarrow> Redis \<Rightarrow> string \<Rightarrow> zset option" where
  "zget now r k =
     (case zsets r k of
        None \<Rightarrow> None
      | Some z \<Rightarrow> if alive now (z_expires z) then Some z else None)"

text \<open>Storing a sorted set: Redis deletes a sorted set that has lost its last member.\<close>

definition zput :: "Redis \<Rightarrow> string \<Rightarrow> zset \<Rightarrow> Redis" where
  "zput r k z = (if members z = [] then r\<lparr>zsets := (zsets r)(k := None)\<rparr> else r\<lparr>zsets := (zsets r)(k \<mapsto> z)\<rparr>)"

definition redis_ZRemRangeByScore :: "string option \<Rightarrow> time \<Rightarrow> Redis \<Rightarrow> string \<Rightarrow> int \<Rightarrow> int \<Rightarrow> err option \<times> Redis" where
  "redis_ZRemRangeByScore fault now r k lo hi =
     (case fault of
        Some m \<Rightarrow> (Some (External m), r)
      | None \<Rightarrow>
          (case zget now r k of
             None \<Rightarrow> (None, r)
           | Some z \<Rightarrow>
               (None, zput r k (z\<lparr>members := filter (\<lambda>(m, s). \<not> (lo \<le> s \<and> s \<le> hi)) (members z)\<rparr>))))"

definition redis_ZCard :: "string option \<Rightarrow> time \<Rightarrow> Redis \<Rightarrow> string \<Rightarrow> err + int" where
  "redis_ZCard fault now r k =
     (case fault of
        Some m \<Rightarrow> Inl (External m)
      | None \<Rightarrow>
          (case zget now r k of
             None \<Rightarrow> Inr 0
           | Some z \<Rightarrow> Inr (int (length (members z)))))"

text \<open>The least score of a list of members, \<open>None\<close> for the empty list.\<close>

fun least_score :: "(string \<times> int) list \<Rightarrow> int option" where
  "least_score [] = None"
| "least_score ((m, s) # xs) =
     (case least_score xs of None \<Rightarrow> Some s | Some s' \<Rightarrow> Some (min s s'))"

text \<open>\<open>ZRANGE key 0 0 WITHSCORES\<close>, of which the limiter reads the score alone.\<close>

definition redis_ZRangeWithScores_first :: "string option \<Rightarrow> time \<Rightarrow> Redis \<Rightarrow> string \<Rightarrow> err + int option" where
  "redis_ZRangeWithScores_first fault now r k =
     (case fault of
        Some m \<Rightarrow> Inl (External m)
      | None \<Rightarrow>
          (case zget now r k of
             None \<Rightarrow> Inr None
           | Some z \<Rightarrow> Inr (least_score (members z))))"

text \<open>\<open>ZADD key score member\<close>: a member already in the set changes its score, a new one is added; a new key has no time to live.\<close>

definition redis_ZAdd :: "string option \<Rightarrow> time \<Rightarrow> Redis \<Rightarrow> string \<Rightarrow> int \<Rightarrow> string \<Rightarrow> err option \<times> Redis" where
  "redis_ZAdd fault now r k score member =
     (case fault of
        Some m \<Rightarrow> (Some (External m), r)
      | None \<Rightarrow>
          (let z = (case zget now r k of None \<Rightarrow> \<lparr>members = [], z_expires = None\<rparr> | Some z0 \<Rightarrow> z0)
           in (None, r\<lparr>zsets := (zsets r)(k \<mapsto>
                 z\<lparr>members := filter (\<lambda>(m, s). m \<noteq> member) (members z) @ [(member, score)]\<rparr>)\<rparr>)))"

text \<open>\<open>EXPIRE key ttl\<close>: nothing on an absent key; a time to live that is not positive deletes the key.\<close>

definition redis_Expire :: "string option \<Rightarrow> time \<Rightarrow> Redis \<Rightarrow> string \<Rightarrow> duration \<Rightarrow> err option \<times> Redis" where
  "redis_Expire fault now r k ttl =
     (case fault of
        Some m \<Rightarrow> (Some (External m), r)
      | None \<Rightarrow>
          (case zget now r k of
             None \<Rightarrow> (None, r)
           | Some z \<Rightarrow>
               if 0 < ttl then (None, r\<lparr>zsets := (zsets r)(k \<mapsto> z\<lparr>z_expires := Some (now + ttl)\<rparr>)\<rparr>)
               else (None, r\<lparr>zsets := (zsets r)(k := None)\<rparr>)))"

section \<open>The credential service\<close>

subsection \<open>Password hashing and token digests\<close>

text \<open>
  bcrypt and SHA-256 are libraries. The service is stated for any functions in their
  place: \<open>sha256_hex\<close> is \<open>hex.EncodeToString(sha256.Sum256(token))\<close>,
  \<open>bcrypt_GenerateFromPassword password cost salt\<close> is the hash bcrypt makes with the
  salt it drew (or its error), and \<open>bcrypt_CompareHashAndPassword hash password\<close>
  says whether the comparison returned no error.
\<close>

record crypto =
  sha256_hex :: "token_string \<Rightarrow> string"
  bcrypt_GenerateFromPassword :: "string \<Rightarrow> int \<Rightarrow> string \<Rightarrow> err + string"
  bcrypt_CompareHashAndPassword :: "string \<Rightarrow> string \<Rightarrow> bool"

definition HashPassword :: "crypto \<Rightarrow> string \<Rightarrow> int \<Rightarrow> string \<Rightarrow> err + string" where
  "HashPassword c password cost salt =
     (case bcrypt_GenerateFromPassword c password cost salt of
        Inl e \<Rightarrow> Inl (Wrapf ''failed to hash password'' e)
      | Inr bytes \<Rightarrow> Inr bytes)"

definition CheckPasswordHash :: "crypto \<Rightarrow> string \<Rightarrow> string \<Rightarrow> bool" where
  "CheckPasswordHash c password hash = bcrypt_CompareHashAndPassword c hash password"

definition hashToken :: "crypto \<Rightarrow> token_string \<Rightarrow> string" where
  "hashToken c token = sha256_hex c token"

subsection \<open>TokenBlacklistService\<close>

definition AddToken :: "string option \<Rightarrow> time \<Rightarrow> Redis \<Rightarrow> token_string \<Rightarrow> duration \<Rightarrow> err option \<times> Redis" where
  "AddToken fault now r token expiry =
     (case redis_Set fault now r token expiry of
        (Some e, r') \<Rightarrow> (Some (Wrapf ''failed to add token to blacklist'' e), r')
      | (None, r') \<Rightarrow> (None, r'))"

definition IsTokenBlacklisted :: "string option \<Rightarrow> time \<Rightarrow> Redis \<Rightarrow> token_string \<Rightarrow> err + bool" where
  "IsTokenBlacklisted fault now r token =
     (case redis_Exists fault now r token of
        Inl e \<Rightarrow> Inl (Wrapf ''failed to check token blacklist'' e)
      | Inr n \<Rightarrow> Inr (n > 0))"

definition RemoveToken :: "string option \<Rightarrow> Redis \<Rightarrow> token_string \<Rightarrow> err option \<times> Redis" where
  "RemoveToken fault r token =
     (case redis_Del fault r token of
        (Some e, r') \<Rightarrow> (Some (Wrapf ''failed to remove token from blacklist'' e), r')
      | (None, r') \<Rightarrow> (None, r'))"

subsection \<open>authService\<close>

record authService =
  jwtManager :: JWTManager
  bcryptCost :: int
  svc_refreshTokenExpiry :: duration

text \<open>
  What one call of the service meets outside itself: the clock reading, the UUIDs
  drawn by \<open>uuid.New()\<close> in the two \<open>Create\<close> functions and in
  \<open>GenerateRefreshToken\<close>, the salt bcrypt draws, and for each call of a store the
  fault it meets there (\<open>None\<close>: the store answers). No operation of the service calls
  the same store function twice.
\<close>

record call =
  clock :: time
  uuid_user :: string
  uuid_token :: string
  uuid_jti :: string
  salt :: string
  f_user_GetByEmail :: "string option"
  f_user_Create :: "string option"
  f_user_GetByID :: "string option"
  f_user_UpdateLastLogin :: "string option"
  f_token_Create :: "string option"
  f_token_GetByTokenHash :: "string option"
  f_token_DeleteByTokenHash :: "string option"
  f_redis_Set :: "string option"
  f_redis_Exists :: "string option"

record world =
  pg :: Postgres
  rd :: Redis

text \<open>The payloads of package \<open>dto\<close>, by the fields the service fills.\<close>

record RegisterRequest =
  reg_Email :: string
  reg_Password :: string

record LoginRequest =
  login_Email :: string
  login_Password :: string

record UserInfo =
  ui_ID :: string
  ui_Email :: string

record AuthResponse =
  ar_AccessToken :: token_string
  ar_TokenType :: string
  ar_ExpiresIn :: int
  ar_User :: UserInfo

record AuthResponseWithRefreshToken =
  r_AuthResponse :: AuthResponse
  r_RefreshToken :: token_string
  r_ExpiresIn :: int

text \<open>\<open>internal/service/auth_response.go\<close>\<close>

definition generateAuthResponseWithRefreshToken ::
  "authService \<Rightarrow> crypto \<Rightarrow> call \<Rightarrow> world \<Rightarrow> User \<Rightarrow> (err + AuthResponseWithRefreshToken) \<times> world" where
  "generateAuthResponseWithRefreshToken s c env w user =
     (case GenerateAccessToken (jwtManager s) (clock env) (u_ID user) (u_Email user) of
        Inl e \<Rightarrow> (Inl (Wrapf ''failed to generate access token'' e), w)
      | Inr accessToken \<Rightarrow>
          (case GenerateRefreshToken (jwtManager s) (clock env) (uuid_jti env) (u_ID user) of
             Inl e \<Rightarrow> (Inl (Wrapf ''failed to generate refresh token'' e), w)
           | Inr refreshToken \<Rightarrow>
               (let tokenHash = hashToken c refreshToken;
                    refreshTokenEntity =
                      \<lparr>rt_ID = [], rt_UserID = u_ID user, rt_TokenHash = tokenHash,
                       rt_ExpiresAt = clock env + svc_refreshTokenExpiry s,
                       rt_CreatedAt = zero_time, rt_DeviceInfo = None, rt_IPAddress = None\<rparr>
                in case token_Create (f_token_Create env) (uuid_token env) (clock env) (pg w) refreshTokenEntity of
                     (Inl e, db) \<Rightarrow> (Inl (Wrapf ''failed to save refresh token'' e), w\<lparr>pg := db\<rparr>)
                   | (Inr _, db) \<Rightarrow>
                       (Inr \<lparr>r_AuthResponse =
                               \<lparr>ar_AccessToken = accessToken, ar_TokenType = ''Bearer'',
                                ar_ExpiresIn = GetAccessTokenExpiry (jwtManager s),
                                ar_User = \<lparr>ui_ID = u_ID user, ui_Email = u_Email user\<rparr>\<rparr>,
                             r_RefreshToken = refreshToken,
                             r_ExpiresIn = Seconds (svc_refreshTokenExpiry s)\<rparr>,
                        w\<lparr>pg := db\<rparr>))))"

definition Register ::
  "authService \<Rightarrow> crypto \<Rightarrow> call \<Rightarrow> RegisterRequest \<Rightarrow> world \<Rightarrow> (err + AuthResponseWithRefreshToken) \<times> world" where
  "Register s c env req w =
     (if \<not> ValidateEmail (reg_Email req) then (Inl (Errorf ''invalid email format''), w)
      else if \<not> ValidatePassword (reg_Password req)
      then (Inl (Errorf ''password must be at least 8 characters long and contain uppercase, lowercase, and number''), w)
      else
        (case user_GetByEmail (f_user_GetByEmail env) (pg w) (reg_Email req) of
           Inr _ \<Rightarrow> (Inl (Errorf (''user with email '' @ reg_Email req @ '' already exists'')), w)
         | Inl e \<Rightarrow>
             if e \<noteq> ErrNotFound then (Inl (Wrapf ''failed to check user existence'' e), w)
             else
               (case HashPassword c (reg_Password req) (bcryptCost s) (salt env) of
                  Inl e' \<Rightarrow> (Inl (Wrapf ''failed to hash password'' e'), w)
                | Inr passwordHash \<Rightarrow>
                    (let user = \<lparr>u_ID = [], u_Email = SanitizeEmail (reg_Email req),
                                 u_PasswordHash = passwordHash,
                                 u_CreatedAt = zero_time, u_UpdatedAt = zero_time,
                                 u_LastLoginAt = None, u_IsActive = True, u_IsEmailVerified = False\<rparr>
                     in case user_Create (f_user_Create env) (uuid_user env) (clock env) (pg w) user of
                          (Inl e', db) \<Rightarrow> (Inl (Wrapf ''failed to create user'' e'), w\<lparr>pg := db\<rparr>)
                        | (Inr user', db) \<Rightarrow>
                            generateAuthResponseWithRefreshToken s c env (w\<lparr>pg := db\<rparr>) user'))))"

definition Login ::
  "authService \<Rightarrow> crypto \<Rightarrow> call \<Rightarrow> LoginRequest \<Rightarrow> world \<Rightarrow> (err + AuthResponseWithRefreshToken) \<times> world" where
  "Login s c env req w =
     (case user_GetByEmail (f_user_GetByEmail env) (pg w) (SanitizeEmail (login_Email req)) of
        Inl e \<Rightarrow>
          if e = ErrNotFound then (Inl (Errorf ''invalid email or password''), w)
          else (Inl (Wrapf ''failed to get user'' e), w)
      | Inr user \<Rightarrow>
          if \<not> u_IsActive user then (Inl (Errorf ''user account is inactive''), w)
          else if \<not> CheckPasswordHash c (login_Password req) (u_PasswordHash user)
          then (Inl (Errorf ''invalid email or password''), w)
          else
            (case user_UpdateLastLogin (f_user_UpdateLastLogin env) (clock env) (pg w) (u_ID user) of
               (_, db) \<Rightarrow> generateAuthResponseWithRefreshToken s c env (w\<lparr>pg := db\<rparr>) user))"

definition RefreshToken ::
  "authService \<Rightarrow> crypto \<Rightarrow> call \<Rightarrow> token_string \<Rightarrow> world \<Rightarrow> (err + AuthResponseWithRefreshToken) \<times> world" where
  "RefreshToken s c env refreshToken w =
     (case ValidateRefreshToken (jwtManager s) (clock env) refreshToken of
        Inl e \<Rightarrow> (Inl (Wrapf ''invalid refresh token'' e), w)
      | Inr userID \<Rightarrow>
          (let tokenHash = hashToken c refreshToken
           in case token_GetByTokenHash (f_token_GetByTokenHash env) (pg w) tokenHash of
                Inl e \<Rightarrow>
                  if e = ErrNotFound then (Inl (Errorf ''invalid refresh token''), w)
                  else (Inl (Wrapf ''failed to get token'' e), w)
              | Inr dbToken \<Rightarrow>
                  if clock env > rt_ExpiresAt dbToken then (Inl (Errorf ''refresh token expired''), w)
                  else
                    (case IsTokenBlacklisted (f_redis_Exists env) (clock env) (rd w) refreshToken of
                       Inl e \<Rightarrow> (Inl (Wrapf ''failed to check token blacklist'' e), w)
                     | Inr isBlacklisted \<Rightarrow>
                         if isBlacklisted then (Inl (Errorf ''refresh token is blacklisted''), w)
                         else
                           (case user_GetByID (f_user_GetByID env) (pg w) userID of
                              Inl e \<Rightarrow> (Inl (Wrapf ''failed to get user'' e), w)
                            | Inr user \<Rightarrow>
                                if \<not> u_IsActive user then (Inl (Errorf ''user account is inactive''), w)
                                else
                                  (case AddToken (f_redis_Set env) (clock env) (rd w) refreshToken (svc_refreshTokenExpiry s) of
                                     (_, r1) \<Rightarrow>
                                       (case token_DeleteByTokenHash (f_token_DeleteByTokenHash env) (pg w) tokenHash of
                                          (_, db1) \<Rightarrow>
                                            generateAuthResponseWithRefreshToken s c env
                                              \<lparr>pg = db1, rd = r1\<rparr> user))))))"

text \<open>\<open>Logout\<close> returns the \<open>nil\<close> error on every path: its result is the world alone.\<close>

definition Logout ::
  "authService \<Rightarrow> crypto \<Rightarrow> call \<Rightarrow> string \<Rightarrow> token_string \<Rightarrow> world \<Rightarrow> err option \<times> world" where
  "Logout s c env userID refreshToken w =
     (if refreshToken \<noteq> Opaque [] then
        (let tokenHash = hashToken c refreshToken
         in case token_GetByTokenHash (f_token_GetByTokenHash env) (pg w) tokenHash of
              Inr dbToken \<Rightarrow>
                if rt_UserID dbToken = userID then
                  (case AddToken (f_redis_Set env) (clock env) (rd w) refreshToken (svc_refreshTokenExpiry s) of
                     (_, r1) \<Rightarrow>
                       (case token_DeleteByTokenHash (f_token_DeleteByTokenHash env) (pg w) tokenHash of
                          (_, db1) \<Rightarrow> (None, \<lparr>pg = db1, rd = r1\<rparr>)))
                else (None, w)
            | Inl _ \<Rightarrow> (None, w))
      else (None, w))"

definition ValidateToken ::
  "authService \<Rightarrow> call \<Rightarrow> token_string \<Rightarrow> world \<Rightarrow> err + TokenClaims" where
  "ValidateToken s env token w =
     (case IsTokenBlacklisted (f_redis_Exists env) (clock env) (rd w) token of
        Inl e \<Rightarrow> Inl (Wrapf ''failed to check token blacklist'' e)
      | Inr isBlacklisted \<Rightarrow>
          if isBlacklisted then Inl (Errorf ''token is blacklisted'')
          else
            (case jwt_ValidateToken (jwtManager s) (clock env) token of
               Inl e \<Rightarrow> Inl (Wrapf ''invalid token'' e)
             | Inr claims \<Rightarrow> Inr claims))"

section \<open>internal/service/rate_limiter.go\<close>

subsection \<open>Formatting\<close>

text \<open>\<open>fmt.Sprintf("%d", n)\<close>: the decimal digits of an integer, with a minus sign when negative.\<close>

fun digits :: "nat \<Rightarrow> string" where
  "digits n = (if n < 10 then [char_of (48 + n)] else digits (n div 10) @ [char_of (48 + n mod 10)])"

declare digits.simps [simp del]

definition Itoa :: "int \<Rightarrow> string" where
  "Itoa i = (if i < 0 then CHR ''-'' # digits (nat (- i)) else digits (nat i))"

text \<open>\<open>Duration.Round(m)\<close>: to the nearest multiple of \<open>m\<close>, halves away from zero.\<close>

definition Round :: "duration \<Rightarrow> duration \<Rightarrow> duration" where
  "Round d m =
     (if m \<le> 0 then d
      else if d < 0 then (let r = (- d) mod m in if r + r < m then d + r else d - m + r)
      else (let r = d mod m in if r + r < m then d - r else d + m - r))"

text \<open>
  \<open>Duration.String()\<close> of a whole number of seconds, which is all the limiter prints:
  \<open>45s\<close>, \<open>1m30s\<close>, \<open>2h0m5s\<close>, \<open>0s\<close>, with a minus sign when negative.
\<close>

definition Duration_String :: "duration \<Rightarrow> string" where
  "Duration_String d =
     (let u = nat (abs d div Second); h = u div 3600; m = (u div 60) mod 60; sec = u mod 60
      in (if d < 0 \<and> 0 < u then ''-'' else [])
         @ (if 0 < h then digits h @ ''h'' else [])
         @ (if 0 < h \<or> 0 < m then digits m @ ''m'' else [])
         @ digits sec @ ''s'')"

subsection \<open>RateLimiter\<close>

text \<open>What one call of the limiter meets: the clock reading and the fault of each Redis command.\<close>

record limiter_call =
  l_clock :: time
  f_ZRemRangeByScore :: "string option"
  f_ZCard :: "string option"
  f_ZRangeWithScores :: "string option"
  f_ZAdd :: "string option"
  f_Expire :: "string option"

text \<open>\<open>Allow\<close> returns the pair of Go, a boolean and an error, and the store it leaves.\<close>

definition Allow :: "limiter_call \<Rightarrow> Redis \<Rightarrow> string \<Rightarrow> int \<Rightarrow> duration \<Rightarrow> (bool \<times> err option) \<times> Redis" where
  "Allow env r k limit window =
     (let now = l_clock env;
          windowStart = now - window
      in case redis_ZRemRangeByScore (f_ZRemRangeByScore env) now r k 0 (Unix windowStart) of
           (Some e, r1) \<Rightarrow> ((False, Some (Wrapf ''failed to clean old entries'' e)), r1)
         | (None, r1) \<Rightarrow>
             (case redis_ZCard (f_ZCard env) now r1 k of
                Inl e \<Rightarrow> ((False, Some (Wrapf ''failed to count entries'' e)), r1)
              | Inr count \<Rightarrow>
                  if count \<ge> limit then
                    (case redis_ZRangeWithScores_first (f_ZRangeWithScores env) now r1 k of
                       Inr (Some score) \<Rightarrow>
                         (let oldestTime = time_Unix score;
                              remaining = window - (now - oldestTime)
                          in ((False, Some (Errorf (''rate limit exceeded, try again in '' @
                                 Duration_String (Round remaining Second)))), r1))
                     | _ \<Rightarrow> ((False, Some (Errorf ''rate limit exceeded'')), r1))
                  else
                    (let member = Itoa now @ ''-'' @ Itoa (Unix now)
                     in case redis_ZAdd (f_ZAdd env) now r1 k (Unix now) member of
                          (Some e, r2) \<Rightarrow> ((False, Some (Wrapf ''failed to add entry'' e)), r2)
                        | (None, r2) \<Rightarrow>
                            (case redis_Expire (f_Expire env) now r2 k (window + Minute) of
                               (_, r3) \<Rightarrow> ((True, None), r3)))))"

definition GetRemainingRequests :: "limiter_call \<Rightarrow> Redis \<Rightarrow> string \<Rightarrow> int \<Rightarrow> duration \<Rightarrow> (int \<times> err option) \<times> Redis" where
  "GetRemainingRequests env r k limit window =
     (let now = l_clock env;
          windowStart = now - window
      in case redis_ZRemRangeByScore (f_ZRemRangeByScore env) now r k 0 (Unix windowStart) of
           (Some e, r1) \<Rightarrow> ((0, Some (Wrapf ''failed to clean old entries'' e)), r1)
         | (None, r1) \<Rightarrow>
             (case redis_ZCard (f_ZCard env) now r1 k of
                Inl e \<Rightarrow> ((0, Some (Wrapf ''failed to count entries'' e)), r1)
              | Inr count \<Rightarrow>
                  (let remaining = limit - count
                   in ((if remaining < 0 then 0 else remaining, None), r1))))"

section \<open>internal/handler\<close>

text \<open>
  The handlers turn the service's error into the response of the HTTP interface. A
  response is its status code, its JSON body and the refresh cookie it sets, if any
  (the token and the cookie's maximal age). Reading the request (JSON binding, the
  cookie, the \<open>Authorization\<close> header) is the framework's work; the handlers are
  modelled from the point where the request has been read.
\<close>

datatype body =
    ErrorResponse string string
  | AuthBody AuthResponse
  | SuccessResponse string
  | Next TokenClaims

record response =
  code :: nat
  body :: body
  cookie :: "(token_string \<times> int) option"

text \<open>\<open>strings.Contains\<close>\<close>

fun Contains :: "string \<Rightarrow> string \<Rightarrow> bool" where
  "Contains [] substr = (substr = [])"
| "Contains (x # xs) substr = (take (length substr) (x # xs) = substr \<or> Contains xs substr)"

definition handler_Register ::
  "authService \<Rightarrow> crypto \<Rightarrow> call \<Rightarrow> RegisterRequest \<Rightarrow> world \<Rightarrow> response \<times> world" where
  "handler_Register s c env req w =
     (case Register s c env req w of
        (Inl e, w') \<Rightarrow>
          if Contains (Error e) ''already exists''
          then (\<lparr>code = 409, body = ErrorResponse ''Conflict'' (Error e), cookie = None\<rparr>, w')
          else (\<lparr>code = 400, body = ErrorResponse ''Bad request'' (Error e), cookie = None\<rparr>, w')
      | (Inr resp, w') \<Rightarrow>
          (\<lparr>code = 201, body = AuthBody (r_AuthResponse resp),
            cookie = Some (r_RefreshToken resp, r_ExpiresIn resp)\<rparr>, w'))"

definition handler_Login ::
  "authService \<Rightarrow> crypto \<Rightarrow> call \<Rightarrow> LoginRequest \<Rightarrow> world \<Rightarrow> response \<times> world" where
  "handler_Login s c env req w =
     (case Login s c env req w of
        (Inl e, w') \<Rightarrow>
          (\<lparr>code = 401, body = ErrorResponse ''Unauthorized'' (Error e), cookie = None\<rparr>, w')
      | (Inr resp, w') \<Rightarrow>
          (\<lparr>code = 200, body = AuthBody (r_AuthResponse resp),
            cookie = Some (r_RefreshToken resp, r_ExpiresIn resp)\<rparr>, w'))"

text \<open>\<open>Refresh\<close> reads the token from the cookie \<open>refresh_token\<close>; \<open>None\<close> is the request without it.\<close>

definition handler_Refresh ::
  "authService \<Rightarrow> crypto \<Rightarrow> call \<Rightarrow> token_string option \<Rightarrow> world \<Rightarrow> response \<times> world" where
  "handler_Refresh s c env cookie_value w =
     (case cookie_value of
        None \<Rightarrow>
          (\<lparr>code = 400, body = ErrorResponse ''Bad request'' ''Refresh token not found in cookie'',
            cookie = None\<rparr>, w)
      | Some refreshToken \<Rightarrow>
          (case RefreshToken s c env refreshToken w of
             (Inl e, w') \<Rightarrow>
               (\<lparr>code = 401, body = ErrorResponse ''Unauthorized'' (Error e), cookie = None\<rparr>, w')
           | (Inr resp, w') \<Rightarrow>
               (\<lparr>code = 200, body = AuthBody (r_AuthResponse resp),
                 cookie = Some (r_RefreshToken resp, r_ExpiresIn resp)\<rparr>, w')))"

text \<open>
  \<open>AuthMiddleware\<close>, from the token it took out of the header \<open>Bearer <token>\<close>: on
  success the request goes on with the claims.
\<close>

definition AuthMiddleware :: "authService \<Rightarrow> call \<Rightarrow> token_string \<Rightarrow> world \<Rightarrow> response" where
  "AuthMiddleware s env token w =
     (case ValidateToken s env token w of
        Inl e \<Rightarrow>
          \<lparr>code = 401, body = ErrorResponse ''Unauthorized'' ''Invalid or expired token'', cookie = None\<rparr>
      | Inr claims \<Rightarrow> \<lparr>code = 200, body = Next claims, cookie = None\<rparr>)"

section \<open>Runs of the service\<close>

text \<open>
  \<open>reach s c t w w'\<close>: the stores \<open>w'\<close> are what calls of the service and of the
  limiter, each made at a clock reading of \<open>t\<close> or later, have made of the stores
  \<open>w\<close>. These are the writers the program has: \<open>ValidateToken\<close> writes nothing, and
  nothing in the program calls \<open>RemoveToken\<close> or \<open>DeleteExpired\<close>.
\<close>

inductive reach :: "authService \<Rightarrow> crypto \<Rightarrow> time \<Rightarrow> world \<Rightarrow> world \<Rightarrow> bool"
  for s :: authService and c :: crypto and t :: time and w :: world where
  reach_refl: "reach s c t w w"
| reach_Register:
    "reach s c t w w1 \<Longrightarrow> t \<le> clock env \<Longrightarrow> w2 = snd (Register s c env req w1) \<Longrightarrow> reach s c t w w2"
| reach_Login:
    "reach s c t w w1 \<Longrightarrow> t \<le> clock env \<Longrightarrow> w2 = snd (Login s c env lreq w1) \<Longrightarrow> reach s c t w w2"
| reach_RefreshToken:
    "reach s c t w w1 \<Longrightarrow> t \<le> clock env \<Longrightarrow> w2 = snd (RefreshToken s c env token w1) \<Longrightarrow> reach s c t w w2"
| reach_Logout:
    "reach s c t w w1 \<Longrightarrow> t \<le> clock env \<Longrightarrow> w2 = snd (Logout s c env userID token w1) \<Longrightarrow> reach s c t w w2"
| reach_Allow:
    "reach s c t w w1 \<Longrightarrow> t \<le> l_clock lenv \<Longrightarrow>
     w2 = w1\<lparr>rd := snd (Allow lenv (rd w1) k limit window)\<rparr> \<Longrightarrow> reach s c t w w2"
| reach_GetRemainingRequests:
    "reach s c t w w1 \<Longrightarrow> t \<le> l_clock lenv \<Longrightarrow>
     w2 = w1\<lparr>rd := snd (GetRemainingRequests lenv (rd w1) k limit window)\<rparr> \<Longrightarrow> reach s c t w w2"

text \<open>
  A run of the limiter on one key with Redis answering every command: the clock
  readings of the calls, in order, give the list of their verdicts.
\<close>

definition answering :: "time \<Rightarrow> limiter_call" where
  "answering t =
     \<lparr>l_clock = t, f_ZRemRangeByScore = None, f_ZCard = None, f_ZRangeWithScores = None,
      f_ZAdd = None, f_Expire = None\<rparr>"

fun run_Allow :: "Redis \<Rightarrow> string \<Rightarrow> int \<Rightarrow> duration \<Rightarrow> time list \<Rightarrow> bool list" where
  "run_Allow r k limit window [] = []"
| "run_Allow r k limit window (t # ts) =
     (case Allow (answering t) r k limit window of
        ((allowed, _), r') \<Rightarrow> allowed # run_Allow r' k limit window ts)"

text \<open>
  The members \<open>Allow\<close> counts at \<open>now\<close>: those of the live key that the trimming
  leaves, which removes the scores from 0 to the second of \<open>now - window\<close>.
\<close>

definition counted :: "time \<Rightarrow> duration \<Rightarrow> Redis \<Rightarrow> string \<Rightarrow> (string \<times> int) list" where
  "counted now window r k =
     (case zget now r k of
        None \<Rightarrow> []
      | Some z \<Rightarrow> filter (\<lambda>(m, s). \<not> (0 \<le> s \<and> s \<le> Unix (now - window))) (members z))"

text \<open>
  What holds of the key between the calls of a run, after the calls up to the clock
  reading \<open>T\<close>, of which the admitted ones have the seconds \<open>admitted\<close>: above every
  bound that a later trimming can use, the scores in the set are the admitted seconds;
  every member was written by an earlier call and scored with its second; and by the
  time the key expires every score has left the window.
\<close>

definition limiter_inv :: "string \<Rightarrow> duration \<Rightarrow> time \<Rightarrow> Redis \<Rightarrow> int list \<Rightarrow> bool" where
  "limiter_inv k window T r admitted =
     (let ms = (case zsets r k of None \<Rightarrow> [] | Some z \<Rightarrow> members z);
          ex = (case zsets r k of None \<Rightarrow> None | Some z \<Rightarrow> z_expires z)
      in (\<forall>thr. Unix (T - window) \<le> thr \<longrightarrow>
            filter (\<lambda>sec. thr < sec) (map snd ms) = filter (\<lambda>sec. thr < sec) admitted) \<and>
         (\<forall>(m, sec) \<in> set ms. 0 \<le> sec \<and> sec \<le> Unix T \<and>
            (\<exists>t'. 0 \<le> t' \<and> t' \<le> T \<and> m = Itoa t' @ ''-'' @ Itoa (Unix t'))) \<and>
         (\<forall>x. ex = Some x \<longrightarrow> (\<forall>(m, sec) \<in> set ms. time_Unix sec + window + Minute \<le> x)))"

subsection \<open>The sliding-window log of the spec, in whole seconds\<close>

text \<open>
  The reference the limiter is compared with, written from section 4.3 of the spec:
  the log holds the Unix second of every admitted request; a request at \<open>t\<close> is
  admitted when fewer than \<open>limit\<close> logged seconds lie after the second of
  \<open>t - window\<close>, and its own second is then logged.
\<close>

fun window_log :: "int \<Rightarrow> duration \<Rightarrow> int list \<Rightarrow> time list \<Rightarrow> bool list" where
  "window_log limit window admitted [] = []"
| "window_log limit window admitted (t # ts) =
     (if int (length (filter (\<lambda>sec. Unix (t - window) < sec) admitted)) < limit
      then True # window_log limit window (admitted @ [Unix t]) ts
      else False # window_log limit window admitted ts)"

subsection \<open>A token on the denylist\<close>

text \<open>
  \<open>denied_until T r token\<close>: the denylist of \<open>r\<close> holds an entry for the token that
  does not expire before \<open>T\<close>.
\<close>

definition denied_until :: "time \<Rightarrow> Redis \<Rightarrow> token_string \<Rightarrow> bool" where
  "denied_until T r token =
     (case strings r token of
        None \<Rightarrow> False
      | Some None \<Rightarrow> True
      | Some (Some x) \<Rightarrow> T \<le> x)"

section \<open>A configuration for the examples\<close>

text \<open>
  The examples run the service with the lifetimes the configuration defaults to (15
  minutes and 7 days), a secret of 32 characters, one active user and one inactive
  user in the database, and stand-ins for the libraries: the digest of a token is
  its \<open>jti\<close> claim, and the hash of a password is the salt, a dollar sign and the
  password.
\<close>

definition example_manager :: JWTManager where
  "example_manager =
     \<lparr>secret = ''0123456789abcdef0123456789abcdef'',
      accessTokenExpiry = 900 * Second, refreshTokenExpiry = 604800 * Second\<rparr>"

definition example_service :: authService where
  "example_service =
     \<lparr>jwtManager = example_manager, bcryptCost = 12, svc_refreshTokenExpiry = 604800 * Second\<rparr>"

definition example_digest :: "token_string \<Rightarrow> string" where
  "example_digest token =
     (case token of
        Opaque x \<Rightarrow> x
      | Compact alg cs k \<Rightarrow> (case claim cs ''jti'' of Some (JString x) \<Rightarrow> x | _ \<Rightarrow> ''no-jti''))"

definition example_crypto :: crypto where
  "example_crypto =
     \<lparr>sha256_hex = example_digest,
      bcrypt_GenerateFromPassword = (\<lambda>password cost salt. Inr (salt @ ''$'' @ password)),
      bcrypt_CompareHashAndPassword =
        (\<lambda>hash password. dropWhile (\<lambda>x. x \<noteq> CHR ''$'') hash = ''$'' @ password)\<rparr>"

text \<open>A call at clock reading \<open>t\<close> that meets no fault and draws UUIDs numbered \<open>n\<close>.\<close>

definition example_call :: "time \<Rightarrow> string \<Rightarrow> call" where
  "example_call t n =
     \<lparr>clock = t, uuid_user = ''user-'' @ n, uuid_token = ''token-'' @ n, uuid_jti = ''jti-'' @ n,
      salt = ''salt'',
      f_user_GetByEmail = None, f_user_Create = None, f_user_GetByID = None,
      f_user_UpdateLastLogin = None, f_token_Create = None, f_token_GetByTokenHash = None,
      f_token_DeleteByTokenHash = None, f_redis_Set = None, f_redis_Exists = None\<rparr>"

definition alice :: User where
  "alice =
     \<lparr>u_ID = ''user-1'', u_Email = ''test@x.com'', u_PasswordHash = ''salt$Passw0rd1'',
      u_CreatedAt = 0, u_UpdatedAt = 0, u_LastLoginAt = None,
      u_IsActive = True, u_IsEmailVerified = False\<rparr>"

definition bob :: User where
  "bob =
     \<lparr>u_ID = ''user-0'', u_Email = ''bob@x.com'', u_PasswordHash = ''salt$Passw0rd2'',
      u_CreatedAt = 0, u_UpdatedAt = 0, u_LastLoginAt = None,
      u_IsActive = False, u_IsEmailVerified = False\<rparr>"

definition example_world :: world where
  "example_world =
     \<lparr>pg = \<lparr>users = [bob, alice], refresh_tokens = []\<rparr>,
      rd = \<lparr>strings = Map.empty, zsets = Map.empty\<rparr>\<rparr>"

text \<open>
  The refresh token the manager issues to the active user at clock reading 0, and the
  stores after the login that issued it.
\<close>

definition example_token :: token_string where
  "example_token =
     Compact (SigningMethodHMAC ''HS256'')
       [(''exp'', JNumber 604800), (''iat'', JNumber 0), (''jti'', JString ''jti-1''),
        (''type'', JString ''refresh''), (''user_id'', JString ''user-1'')]
       ''0123456789abcdef0123456789abcdef''"

text \<open>The access token of the same login.\<close>

definition example_access_token :: token_string where
  "example_access_token =
     Compact (SigningMethodHMAC ''HS256'')
       [(''email'', JString ''test@x.com''), (''exp'', JNumber 900), (''iat'', JNumber 0),
        (''user_id'', JString ''user-1'')]
       ''0123456789abcdef0123456789abcdef''"

definition example_record :: RefreshToken where
  "example_record =
     \<lparr>rt_ID = ''token-1'', rt_UserID = ''user-1'', rt_TokenHash = ''jti-1'',
      rt_ExpiresAt = 604800 * Second, rt_CreatedAt = 0,
      rt_DeviceInfo = None, rt_IPAddress = None\<rparr>"

definition example_world_1 :: world where
  "example_world_1 =
     \<lparr>pg = \<lparr>users = [bob, alice\<lparr>u_LastLoginAt := Some 0\<rparr>], refresh_tokens = [example_record]\<rparr>,
      rd = \<lparr>strings = Map.empty, zsets = Map.empty\<rparr>\<rparr>"

text \<open>
  The rotation of that token at 1000 seconds, in a call whose record-delete meets a
  fault: the response it returns and the stores it leaves.
\<close>

definition example_rotation_call :: call where
  "example_rotation_call =
     (example_call (1000 * Second) ''2'')\<lparr>f_token_DeleteByTokenHash := Some ''connection refused''\<rparr>"

definition example_token_2 :: token_string where
  "example_token_2 =
     Compact (SigningMethodHMAC ''HS256'')
       [(''exp'', JNumber 605800), (''iat'', JNumber 1000), (''jti'', JString ''jti-2''),
        (''type'', JString ''refresh''), (''user_id'', JString ''user-1'')]
       ''0123456789abcdef0123456789abcdef''"

definition example_response_2 :: AuthResponseWithRefreshToken where
  "example_response_2 =
     \<lparr>r_AuthResponse =
        \<lparr>ar_AccessToken =
           Compact (SigningMethodHMAC ''HS256'')
             [(''email'', JString ''test@x.com''), (''exp'', JNumber 1900), (''iat'', JNumber 1000),
              (''user_id'', JString ''user-1'')]
             ''0123456789abcdef0123456789abcdef'',
         ar_TokenType = ''Bearer'', ar_ExpiresIn = 900,
         ar_User = \<lparr>ui_ID = ''user-1'', ui_Email = ''test@x.com''\<rparr>\<rparr>,
      r_RefreshToken = example_token_2, r_ExpiresIn = 604800\<rparr>"

definition example_world_2 :: world where
  "example_world_2 =
     \<lparr>pg = \<lparr>users = [bob, alice\<lparr>u_LastLoginAt := Some 0\<rparr>],
            refresh_tokens =
              [example_record,
               \<lparr>rt_ID = ''token-2'', rt_UserID = ''user-1'', rt_TokenHash = ''jti-2'',
                rt_ExpiresAt = 605800 * Second, rt_CreatedAt = 1000 * Second,
                rt_DeviceInfo = None, rt_IPAddress = None\<rparr>]\<rparr>,
      rd = \<lparr>strings = [example_token \<mapsto> Some (605800 * Second)], zsets = Map.empty\<rparr>\<rparr>"

section \<open>Lemmas\<close>

subsection \<open>Unfolding the model on the examples\<close>

lemmas example_defs =
  example_service_def example_manager_def example_crypto_def example_digest_def example_call_def
  example_world_def example_world_1_def example_token_def example_access_token_def
  example_record_def alice_def bob_def example_rotation_call_def example_token_2_def
  example_response_2_def example_world_2_def

lemmas jwt_defs =
  GenerateAccessToken_def GenerateRefreshToken_def SignedString_def SigningMethodHS256_def
  jwt_ValidateToken_def ValidateRefreshToken_def jwt_Parse_def keyFunc_def validate_exp_def
  validate_nbf_def claim_def IsExpired_def GetAccessTokenExpiry_def Seconds_def

lemmas time_defs = Unix_def time_Unix_def Second_def Minute_def zero_time_def

lemmas store_defs =
  user_Create_def user_GetByEmail_def user_GetByID_def user_UpdateLastLogin_def
  token_Create_def token_GetByTokenHash_def token_DeleteByTokenHash_def
  redis_Set_def redis_Exists_def alive_def AddToken_def IsTokenBlacklisted_def
  HashPassword_def CheckPasswordHash_def hashToken_def

subsection \<open>The token codec\<close>

lemma jwt_Parse_Inr_Valid: "jwt_Parse kf now tok = Inr t \<Longrightarrow> Valid t"
  by (auto simp: jwt_Parse_def split: token_string.splits sum.splits if_splits option.splits)

lemma refresh_claims:
  "claim [(''exp'', JNumber x), (''iat'', JNumber y), (''jti'', JString jti),
          (''type'', JString ''refresh''), (''user_id'', JString uid)] k =
     (if k = ''exp'' then Some (JNumber x)
      else if k = ''iat'' then Some (JNumber y)
      else if k = ''jti'' then Some (JString jti)
      else if k = ''type'' then Some (JString ''refresh'')
      else if k = ''user_id'' then Some (JString uid) else None)"
  by (simp add: claim_def)

lemma Unix_le: "time_Unix (Unix t) \<le> t"
  by (simp add: time_Unix_def Unix_def Second_def)

text \<open>A refresh token of the manager that a validator still accepts has not outlived its lifetime.\<close>

lemma generated_refresh_expiry:
  assumes "GenerateRefreshToken j t0 jti uid = Inr token"
    and "ValidateRefreshToken j' now token = Inr userID"
  shows "now < t0 + refreshTokenExpiry j"
proof -
  have "now < time_Unix (Unix (t0 + refreshTokenExpiry j))"
    using assms
    by (auto simp: GenerateRefreshToken_def SignedString_def ValidateRefreshToken_def jwt_Parse_def
        validate_exp_def claim_def split: sum.splits if_splits option.splits)
  then show ?thesis
    using Unix_le [of "t0 + refreshTokenExpiry j"] by linarith
qed

subsection \<open>What the operations do to the denylist\<close>

lemma generate_rd:
  "rd (snd (generateAuthResponseWithRefreshToken s c env w user)) = rd w"
  by (auto simp: generateAuthResponseWithRefreshToken_def Let_def split: sum.splits prod.splits)

lemma AddToken_strings:
  "strings (snd (AddToken fault now r token expiry)) =
     (case fault of
        Some m \<Rightarrow> strings r
      | None \<Rightarrow> (strings r)(token \<mapsto> (if 0 < expiry then Some (now + expiry) else None)))"
  by (simp add: AddToken_def redis_Set_def split: option.splits)

lemma AddToken_denied_until:
  assumes "denied_until T r token" and "T \<le> now + expiry"
  shows "denied_until T (snd (AddToken fault now r token' expiry)) token"
  using assms by (auto simp: denied_until_def AddToken_strings split: option.splits)

lemma Register_rd: "rd (snd (Register s c env req w)) = rd w"
  by (auto simp: Register_def Let_def generate_rd split: sum.splits prod.splits)

lemma Login_rd: "rd (snd (Login s c env req w)) = rd w"
  by (auto simp: Login_def Let_def generate_rd split: sum.splits prod.splits)

lemma RefreshToken_rd:
  "rd (snd (RefreshToken s c env token w)) = rd w \<or>
   rd (snd (RefreshToken s c env token w)) =
     snd (AddToken (f_redis_Set env) (clock env) (rd w) token (svc_refreshTokenExpiry s))"
  by (auto simp: RefreshToken_def Let_def generate_rd split: sum.splits prod.splits)

lemma Logout_rd:
  "rd (snd (Logout s c env userID token w)) = rd w \<or>
   rd (snd (Logout s c env userID token w)) =
     snd (AddToken (f_redis_Set env) (clock env) (rd w) token (svc_refreshTokenExpiry s))"
  by (auto simp: Logout_def Let_def split: sum.splits prod.splits)

lemma zput_strings: "strings (zput r k z) = strings r"
  by (simp add: zput_def)

lemma ZRemRangeByScore_strings: "strings (snd (redis_ZRemRangeByScore fault now r k lo hi)) = strings r"
  by (simp add: redis_ZRemRangeByScore_def zput_strings split: option.splits)

lemma ZAdd_strings: "strings (snd (redis_ZAdd fault now r k score member)) = strings r"
  by (simp add: redis_ZAdd_def Let_def split: option.splits)

lemma Expire_strings: "strings (snd (redis_Expire fault now r k ttl)) = strings r"
  by (simp add: redis_Expire_def split: option.splits)

lemma Allow_strings: "strings (snd (Allow env r k limit window)) = strings r"
proof -
  obtain e1 r1 where a: "redis_ZRemRangeByScore (f_ZRemRangeByScore env) (l_clock env) r k 0
      (Unix (l_clock env - window)) = (e1, r1)"
    by (cases "redis_ZRemRangeByScore (f_ZRemRangeByScore env) (l_clock env) r k 0 (Unix (l_clock env - window))")
  have r1: "strings r1 = strings r"
    using ZRemRangeByScore_strings [of "f_ZRemRangeByScore env" "l_clock env" r k 0 "Unix (l_clock env - window)"] a
    by simp
  obtain e2 r2 where b: "redis_ZAdd (f_ZAdd env) (l_clock env) r1 k (Unix (l_clock env))
      (Itoa (l_clock env) @ ''-'' @ Itoa (Unix (l_clock env))) = (e2, r2)"
    by (cases "redis_ZAdd (f_ZAdd env) (l_clock env) r1 k (Unix (l_clock env)) (Itoa (l_clock env) @ ''-'' @ Itoa (Unix (l_clock env)))")
  have r2: "strings r2 = strings r1"
    using ZAdd_strings [of "f_ZAdd env" "l_clock env" r1 k "Unix (l_clock env)"] b
    by (metis snd_conv)
  obtain e3 r3 where d: "redis_Expire (f_Expire env) (l_clock env) r2 k (window + Minute) = (e3, r3)"
    by (cases "redis_Expire (f_Expire env) (l_clock env) r2 k (window + Minute)")
  have r3: "strings r3 = strings r2"
    using Expire_strings [of "f_Expire env" "l_clock env" r2 k "window + Minute"] d by simp
  show ?thesis
    using a b d r1 r2 r3
    by (auto simp: Allow_def Let_def split: option.splits sum.splits)
qed

lemma GetRemainingRequests_strings: "strings (snd (GetRemainingRequests env r k limit window)) = strings r"
proof -
  obtain e1 r1 where a: "redis_ZRemRangeByScore (f_ZRemRangeByScore env) (l_clock env) r k 0
      (Unix (l_clock env - window)) = (e1, r1)"
    by (cases "redis_ZRemRangeByScore (f_ZRemRangeByScore env) (l_clock env) r k 0 (Unix (l_clock env - window))")
  have r1: "strings r1 = strings r"
    using ZRemRangeByScore_strings [of "f_ZRemRangeByScore env" "l_clock env" r k 0 "Unix (l_clock env - window)"] a
    by simp
  show ?thesis
    using a r1 by (auto simp: GetRemainingRequests_def Let_def split: option.splits sum.splits)
qed

lemma denied_until_strings: "strings r' = strings r \<Longrightarrow> denied_until T r' token = denied_until T r token"
  by (simp add: denied_until_def)

text \<open>
  No call of the program removes an entry of the denylist or shortens its life: an
  entry that holds until \<open>T\<close> still does after any run of calls made at \<open>t\<close> or
  later, when \<open>T\<close> is no later than \<open>t\<close> plus the refresh lifetime.
\<close>

lemma reach_denied_until:
  assumes "reach s c t w w'" and "denied_until T (rd w) token" and "T \<le> t + svc_refreshTokenExpiry s"
  shows "denied_until T (rd w') token"
  using assms
proof (induction rule: reach.induct)
  case reach_refl
  then show ?case by simp
next
  case (reach_Register w1 env w2 req)
  then show ?case by (simp add: Register_rd)
next
  case (reach_Login w1 env w2 lreq)
  then show ?case by (simp add: Login_rd)
next
  case (reach_RefreshToken w1 env w2 tok)
  have "denied_until T (snd (AddToken (f_redis_Set env) (clock env) (rd w1) tok (svc_refreshTokenExpiry s))) token"
    using reach_RefreshToken by (intro AddToken_denied_until) auto
  then show ?case
    using reach_RefreshToken RefreshToken_rd [of s c env tok w1] by auto
next
  case (reach_Logout w1 env w2 userID tok)
  have "denied_until T (snd (AddToken (f_redis_Set env) (clock env) (rd w1) tok (svc_refreshTokenExpiry s))) token"
    using reach_Logout by (intro AddToken_denied_until) auto
  then show ?case
    using reach_Logout Logout_rd [of s c env userID tok w1] by auto
next
  case (reach_Allow w1 lenv w2 k limit window)
  then show ?case by (simp add: denied_until_strings [OF Allow_strings])
next
  case (reach_GetRemainingRequests w1 lenv w2 k limit window)
  then show ?case by (simp add: denied_until_strings [OF GetRemainingRequests_strings])
qed

text \<open>A token on the denylist for as long as a validator accepts it is refused by \<open>RefreshToken\<close>, which then writes nothing.\<close>

lemma RefreshToken_rejects_denied:
  assumes "denied_until T (rd w) token"
    and "\<forall>userID. ValidateRefreshToken (jwtManager s) (clock env) token = Inr userID \<longrightarrow> clock env < T"
  shows "\<exists>e. RefreshToken s c env token w = (Inl e, w)"
proof (cases "ValidateRefreshToken (jwtManager s) (clock env) token")
  case (Inl e)
  then show ?thesis by (simp add: RefreshToken_def)
next
  case (Inr userID)
  then have "clock env < T" using assms(2) by blast
  then have "\<exists>ex. strings (rd w) token = Some ex \<and> alive (clock env) ex"
    using assms(1) by (auto simp: denied_until_def alive_def split: option.splits)
  then obtain ex where ex: "strings (rd w) token = Some ex" "alive (clock env) ex" by blast
  show ?thesis
    using Inr ex
    by (auto simp: RefreshToken_def Let_def IsTokenBlacklisted_def redis_Exists_def
        split: sum.splits option.splits)
qed

text \<open>A rotation that returned a token pair has gone through the denylist-add.\<close>

lemma RefreshToken_completed:
  assumes "RefreshToken s c env token w = (Inr resp, w1)"
  shows "rd w1 = snd (AddToken (f_redis_Set env) (clock env) (rd w) token (svc_refreshTokenExpiry s))"
proof -
  have "\<And>r db user. generateAuthResponseWithRefreshToken s c env \<lparr>pg = db, rd = r\<rparr> user = (Inr resp, w1)
      \<Longrightarrow> rd w1 = r"
    using generate_rd by (metis snd_conv world.select_convs(2))
  then show ?thesis
    using assms
    by (auto simp: RefreshToken_def Let_def split: sum.splits prod.splits if_splits)
qed

subsection \<open>Issuance\<close>

text \<open>What the shared helper of issuance returns and writes when it succeeds.\<close>

lemma generate_Inr:
  assumes "generateAuthResponseWithRefreshToken s c env w user = (Inr resp, w')"
  shows "GenerateRefreshToken (jwtManager s) (clock env) (uuid_jti env) (u_ID user) = Inr (r_RefreshToken resp) \<and>
         f_token_Create env = None \<and> rd w' = rd w \<and> users (pg w') = users (pg w) \<and>
         refresh_tokens (pg w') = refresh_tokens (pg w) @
           [\<lparr>rt_ID = uuid_token env, rt_UserID = u_ID user,
             rt_TokenHash = hashToken c (r_RefreshToken resp),
             rt_ExpiresAt = clock env + svc_refreshTokenExpiry s,
             rt_CreatedAt = clock env, rt_DeviceInfo = None, rt_IPAddress = None\<rparr>]"
  using assms
  by (auto simp: generateAuthResponseWithRefreshToken_def Let_def token_Create_def
      GenerateAccessToken_def GenerateRefreshToken_def SignedString_def zero_time_def Second_def
      split: sum.splits prod.splits option.splits if_splits)

lemma token_Create_Inl: "token_Create fault uuid now db token = (Inl e, db') \<Longrightarrow> db' = db"
  by (auto simp: token_Create_def Let_def split: option.splits if_splits)

text \<open>And when the record cannot be stored.\<close>

lemma generate_Inl:
  assumes "GenerateRefreshToken (jwtManager s) (clock env) (uuid_jti env) (u_ID user) = Inr tok"
    and "fst (token_Create (f_token_Create env) (uuid_token env) (clock env) (pg w)
            \<lparr>rt_ID = [], rt_UserID = u_ID user, rt_TokenHash = hashToken c tok,
             rt_ExpiresAt = clock env + svc_refreshTokenExpiry s,
             rt_CreatedAt = zero_time, rt_DeviceInfo = None, rt_IPAddress = None\<rparr>) = Inl e"
  shows "generateAuthResponseWithRefreshToken s c env w user =
           (Inl (Wrapf ''failed to save refresh token'' e), w)"
proof -
  obtain db' where "token_Create (f_token_Create env) (uuid_token env) (clock env) (pg w)
            \<lparr>rt_ID = [], rt_UserID = u_ID user, rt_TokenHash = hashToken c tok,
             rt_ExpiresAt = clock env + svc_refreshTokenExpiry s,
             rt_CreatedAt = zero_time, rt_DeviceInfo = None, rt_IPAddress = None\<rparr> = (Inl e, db')"
    using assms(2) by (metis fst_conv surj_pair)
  moreover from this have "db' = pg w" by (rule token_Create_Inl)
  ultimately show ?thesis
    using assms(1)
    by (simp add: generateAuthResponseWithRefreshToken_def Let_def GenerateAccessToken_def SignedString_def)
qed

subsection \<open>The examples, run\<close>

lemma example_issue:
  "GenerateRefreshToken (jwtManager example_service) 0 ''jti-1'' ''user-1'' = Inr example_token"
  by (simp add: example_defs jwt_defs time_defs)

lemma sanitize_test: "SanitizeEmail ''test@x.com'' = ''test@x.com''"
  by (simp add: SanitizeEmail_def ToLower_def TrimSpace_def is_space_def to_lower_char_def is_upper_def)

text \<open>The login of the active user at clock reading 0 issues the example tokens.\<close>

lemma example_login:
  "Login example_service example_crypto (example_call 0 ''1'')
     \<lparr>login_Email = ''test@x.com'', login_Password = ''Passw0rd1''\<rparr> example_world =
   (Inr \<lparr>r_AuthResponse =
           \<lparr>ar_AccessToken = example_access_token,
            ar_TokenType = ''Bearer'', ar_ExpiresIn = 900,
            ar_User = \<lparr>ui_ID = ''user-1'', ui_Email = ''test@x.com''\<rparr>\<rparr>,
         r_RefreshToken = example_token, r_ExpiresIn = 604800\<rparr>,
    example_world_1)"
  by (simp add: Login_def generateAuthResponseWithRefreshToken_def sanitize_test
      example_defs jwt_defs time_defs store_defs Let_def)

text \<open>The rotation of the refresh token at 1000 seconds, whose record-delete fails.\<close>

lemma example_rotation:
  "RefreshToken example_service example_crypto example_rotation_call example_token example_world_1 =
     (Inr example_response_2, example_world_2)"
  by (simp add: RefreshToken_def generateAuthResponseWithRefreshToken_def
      example_defs jwt_defs time_defs store_defs Let_def)

section \<open>The claims\<close>

subsection \<open>C1: a rotated refresh token is never accepted again\<close>

text \<open>
  Claim C1. A refresh token that a completed \<open>RefreshToken\<close> call has consumed is
  refused by every later \<open>RefreshToken\<close> call that presents it, and the handler
  answers 401 Unauthorized, whether or not the record-delete of the rotation went
  through, provided its denylist-add did. The token is one the manager issued, at
  \<open>t0\<close>, no later than the rotation; the manager's refresh lifetime is not longer
  than the service's (\<open>main\<close> gives both the same value). Between the rotation and the later
  call the stores may have gone through any run of calls of the program (\<open>reach\<close>).
  The later call may meet any faults and is made at any clock reading: while the
  denylist entry lives it is refused at the denylist check at the latest, and once the
  entry has expired the token itself has expired. The refused call writes nothing.
\<close>

theorem rotated_token_is_rejected:
  assumes "refreshTokenExpiry (jwtManager s) \<le> svc_refreshTokenExpiry s"
    and "GenerateRefreshToken (jwtManager s) t0 jti uid = Inr token"
    and "t0 \<le> clock env1"
    and "RefreshToken s c env1 token w = (Inr resp, w1)"
    and "f_redis_Set env1 = None"
    and "reach s c (clock env1) w1 w2"
  shows "\<exists>e. RefreshToken s c env2 token w2 = (Inl e, w2) \<and>
             handler_Refresh s c env2 (Some token) w2 =
               (\<lparr>code = 401, body = ErrorResponse ''Unauthorized'' (Error e), cookie = None\<rparr>, w2)"
proof -
  let ?T = "clock env1 + svc_refreshTokenExpiry s"
  have "strings (rd w1) token = Some (if 0 < svc_refreshTokenExpiry s then Some ?T else None)"
    using RefreshToken_completed [OF assms(4)] assms(5) by (simp add: AddToken_strings)
  then have "denied_until ?T (rd w1) token"
    by (simp add: denied_until_def)
  then have d: "denied_until ?T (rd w2) token"
    using reach_denied_until [OF assms(6)] by simp
  have "\<forall>userID. ValidateRefreshToken (jwtManager s) (clock env2) token = Inr userID \<longrightarrow> clock env2 < ?T"
    using generated_refresh_expiry [OF assms(2)] assms(1,3) by fastforce
  from RefreshToken_rejects_denied [OF d this]
  obtain e where "RefreshToken s c env2 token w2 = (Inl e, w2)" by blast
  then show ?thesis by (auto simp: handler_Refresh_def)
qed

text \<open>
  The witness: the example token is rotated at 1000 seconds in a call whose
  record-delete fails, its owner then logs out with it at 2000 seconds, and the token
  is presented again at 3000 seconds.
\<close>

theorem rotated_token_is_rejected_witness:
  "refreshTokenExpiry (jwtManager example_service) \<le> svc_refreshTokenExpiry example_service \<and>
   GenerateRefreshToken (jwtManager example_service) 0 ''jti-1'' ''user-1'' = Inr example_token \<and>
   0 \<le> clock example_rotation_call \<and>
   RefreshToken example_service example_crypto example_rotation_call example_token example_world_1 =
     (Inr example_response_2, example_world_2) \<and>
   f_token_DeleteByTokenHash example_rotation_call = Some ''connection refused'' \<and>
   f_redis_Set example_rotation_call = None \<and>
   reach example_service example_crypto (clock example_rotation_call) example_world_2
     (snd (Logout example_service example_crypto (example_call (2000 * Second) ''3'') ''user-1''
        example_token example_world_2)) \<and>
   (\<exists>e. RefreshToken example_service example_crypto (example_call (3000 * Second) ''4'') example_token
          (snd (Logout example_service example_crypto (example_call (2000 * Second) ''3'') ''user-1''
             example_token example_world_2)) =
        (Inl e, snd (Logout example_service example_crypto (example_call (2000 * Second) ''3'') ''user-1''
             example_token example_world_2)) \<and>
       handler_Refresh example_service example_crypto (example_call (3000 * Second) ''4'')
          (Some example_token)
          (snd (Logout example_service example_crypto (example_call (2000 * Second) ''3'') ''user-1''
             example_token example_world_2)) =
        (\<lparr>code = 401, body = ErrorResponse ''Unauthorized'' (Error e), cookie = None\<rparr>,
         snd (Logout example_service example_crypto (example_call (2000 * Second) ''3'') ''user-1''
             example_token example_world_2)))"
proof -
  have h1: "refreshTokenExpiry (jwtManager example_service) \<le> svc_refreshTokenExpiry example_service"
    by (simp add: example_defs)
  have h3: "0 \<le> clock example_rotation_call"
    by (simp add: example_defs time_defs)
  have h5: "f_redis_Set example_rotation_call = None"
    and h5': "f_token_DeleteByTokenHash example_rotation_call = Some ''connection refused''"
    by (simp_all add: example_defs)
  have "clock example_rotation_call \<le> clock (example_call (2000 * Second) ''3'')"
    by (simp add: example_defs time_defs)
  then have h6: "reach example_service example_crypto (clock example_rotation_call) example_world_2
     (snd (Logout example_service example_crypto (example_call (2000 * Second) ''3'') ''user-1''
        example_token example_world_2))"
    by (rule reach_Logout [OF reach_refl]) simp
  show ?thesis
    using rotated_token_is_rejected [OF h1 example_issue h3 example_rotation h5 h6,
        of "example_call (3000 * Second) ''4''"]
      h1 example_issue h3 example_rotation h5 h5' h6
    by blast
qed

subsection \<open>C3: the time to live of the denylist entry\<close>

text \<open>
  Claim C3, as amended. When \<open>RefreshToken\<close> consumes a refresh token and its
  denylist-add goes through, the entry it writes for the raw token has a time to live
  equal to the configured refresh lifetime, a fixed duration counted from the rotation:
  the entry expires at the clock reading of the rotation plus that lifetime. The
  record that issuance stored for the token expires at the clock reading of the
  issuance plus the same lifetime, so the entry expires no earlier than the token.
\<close>

theorem denylist_entry_lives_one_refresh_lifetime:
  assumes "generateAuthResponseWithRefreshToken s c env0 w0 user = (Inr resp0, w0')"
    and "clock env0 \<le> clock env"
    and "RefreshToken s c env (r_RefreshToken resp0) w = (Inr resp, w1)"
    and "f_redis_Set env = None"
    and "0 < svc_refreshTokenExpiry s"
  shows "strings (rd w1) (r_RefreshToken resp0) = Some (Some (clock env + svc_refreshTokenExpiry s)) \<and>
         rt_TokenHash (last (refresh_tokens (pg w0'))) = hashToken c (r_RefreshToken resp0) \<and>
         rt_ExpiresAt (last (refresh_tokens (pg w0'))) = clock env0 + svc_refreshTokenExpiry s \<and>
         rt_ExpiresAt (last (refresh_tokens (pg w0'))) \<le> clock env + svc_refreshTokenExpiry s"
  using RefreshToken_completed [OF assms(3)] generate_Inr [OF assms(1)] assms(2,4,5)
  by (simp add: AddToken_strings)

text \<open>
  The witness: the example token, issued at clock reading 0 on the stores of the
  example login before its record is written, and rotated at 1000 seconds.
\<close>

theorem denylist_entry_lives_one_refresh_lifetime_witness:
  "generateAuthResponseWithRefreshToken example_service example_crypto (example_call 0 ''1'')
      (example_world_1\<lparr>pg := (pg example_world_1)\<lparr>refresh_tokens := []\<rparr>\<rparr>) alice =
     (Inr \<lparr>r_AuthResponse =
           \<lparr>ar_AccessToken = example_access_token,
            ar_TokenType = ''Bearer'', ar_ExpiresIn = 900,
            ar_User = \<lparr>ui_ID = ''user-1'', ui_Email = ''test@x.com''\<rparr>\<rparr>,
         r_RefreshToken = example_token, r_ExpiresIn = 604800\<rparr>, example_world_1) \<and>
   clock (example_call 0 ''1'') \<le> clock example_rotation_call \<and>
   RefreshToken example_service example_crypto example_rotation_call example_token example_world_1 =
     (Inr example_response_2, example_world_2) \<and>
   f_redis_Set example_rotation_call = None \<and>
   0 < svc_refreshTokenExpiry example_service \<and>
   strings (rd example_world_2) example_token = Some (Some (1000 * Second + 604800 * Second)) \<and>
   rt_ExpiresAt (last (refresh_tokens (pg example_world_1))) = 0 + 604800 * Second"
proof -
  let ?resp = "\<lparr>r_AuthResponse =
           \<lparr>ar_AccessToken = example_access_token,
            ar_TokenType = ''Bearer'', ar_ExpiresIn = 900,
            ar_User = \<lparr>ui_ID = ''user-1'', ui_Email = ''test@x.com''\<rparr>\<rparr>,
         r_RefreshToken = example_token, r_ExpiresIn = 604800\<rparr>"
  have h1: "generateAuthResponseWithRefreshToken example_service example_crypto (example_call 0 ''1'')
      (example_world_1\<lparr>pg := (pg example_world_1)\<lparr>refresh_tokens := []\<rparr>\<rparr>) alice =
     (Inr ?resp, example_world_1)"
    by (simp add: generateAuthResponseWithRefreshToken_def
        example_defs jwt_defs time_defs store_defs Let_def)
  have h2: "clock (example_call 0 ''1'') \<le> clock example_rotation_call"
    by (simp add: example_defs time_defs)
  have h3: "RefreshToken example_service example_crypto example_rotation_call (r_RefreshToken ?resp) example_world_1 =
     (Inr example_response_2, example_world_2)"
    using example_rotation by simp
  have h4: "f_redis_Set example_rotation_call = None"
    by (simp add: example_defs)
  have h5: "0 < svc_refreshTokenExpiry example_service"
    by (simp add: example_defs time_defs)
  have c: "strings (rd example_world_2) example_token = Some (Some (1000 * Second + 604800 * Second)) \<and>
   rt_ExpiresAt (last (refresh_tokens (pg example_world_1))) = 0 + 604800 * Second"
    using denylist_entry_lives_one_refresh_lifetime [OF h1 h2 h3 h4 h5]
    by (simp add: example_service_def example_rotation_call_def example_call_def)
  show ?thesis
    using h1 h2 example_rotation h4 h5 c by blast
qed

text \<open>
  The counterexample to C3 as stated: the example token expires at 604800 seconds,
  in its record and in its \<open>exp\<close> claim. Rotated at 1000 seconds, it has 603800 seconds
  left, but its denylist entry is written with 604800 seconds to live and expires at
  605800 seconds, later than the token.
\<close>

theorem denylist_ttl_is_not_remaining_validity:
  "RefreshToken example_service example_crypto example_rotation_call example_token example_world_1 =
     (Inr example_response_2, example_world_2) \<and>
   clock example_rotation_call = 1000 * Second \<and>
   token_GetByTokenHash None (pg example_world_1) (hashToken example_crypto example_token) = Inr example_record \<and>
   rt_ExpiresAt example_record = 604800 * Second \<and>
   claim [(''exp'', JNumber 604800), (''iat'', JNumber 0), (''jti'', JString ''jti-1''),
          (''type'', JString ''refresh''), (''user_id'', JString ''user-1'')] ''exp'' = Some (JNumber 604800) \<and>
   strings (rd example_world_2) example_token = Some (Some (605800 * Second)) \<and>
   605800 * Second - clock example_rotation_call \<noteq> rt_ExpiresAt example_record - clock example_rotation_call \<and>
   rt_ExpiresAt example_record < 605800 * Second"
  using example_rotation
  by (simp add: example_defs time_defs store_defs claim_def)

subsection \<open>C2: a denylisted access token is refused whatever its signature\<close>

text \<open>
  Claim C2. When the denylist holds a live entry for a raw access token,
  \<open>ValidateToken\<close> returns an error for it and the middleware answers 401
  Unauthorized, whatever the token is: the denylist is asked first, and the codec is
  not reached. When Redis answers, the error is the one of the denylist check; when
  the lookup itself fails, the call fails on that.
\<close>

theorem denylisted_access_token_is_rejected:
  assumes "strings (rd w) token = Some ex" and "alive (clock env) ex"
  shows "(\<exists>e. ValidateToken s env token w = Inl e) \<and>
         (f_redis_Exists env = None \<longrightarrow> ValidateToken s env token w = Inl (Errorf ''token is blacklisted'')) \<and>
         AuthMiddleware s env token w =
           \<lparr>code = 401, body = ErrorResponse ''Unauthorized'' ''Invalid or expired token'', cookie = None\<rparr>"
  using assms
  by (cases "f_redis_Exists env")
     (simp_all add: ValidateToken_def AuthMiddleware_def IsTokenBlacklisted_def redis_Exists_def)

text \<open>
  The witness: the access token of the example login, five seconds old, which the
  codec accepts, is on the denylist.
\<close>

theorem denylisted_access_token_is_rejected_witness:
  "strings (rd (example_world_1\<lparr>rd := \<lparr>strings = [example_access_token \<mapsto> Some (900 * Second)],
                                       zsets = Map.empty\<rparr>\<rparr>)) example_access_token = Some (Some (900 * Second)) \<and>
   alive (clock (example_call (5 * Second) ''2'')) (Some (900 * Second)) \<and>
   jwt_ValidateToken (jwtManager example_service) (clock (example_call (5 * Second) ''2'')) example_access_token =
     Inr \<lparr>tc_UserID = ''user-1'', tc_Email = ''test@x.com'', tc_Exp = 900, tc_Iat = 0\<rparr> \<and>
   ValidateToken example_service (example_call (5 * Second) ''2'') example_access_token
     (example_world_1\<lparr>rd := \<lparr>strings = [example_access_token \<mapsto> Some (900 * Second)],
                              zsets = Map.empty\<rparr>\<rparr>) = Inl (Errorf ''token is blacklisted'') \<and>
   AuthMiddleware example_service (example_call (5 * Second) ''2'') example_access_token
     (example_world_1\<lparr>rd := \<lparr>strings = [example_access_token \<mapsto> Some (900 * Second)],
                              zsets = Map.empty\<rparr>\<rparr>) =
     \<lparr>code = 401, body = ErrorResponse ''Unauthorized'' ''Invalid or expired token'', cookie = None\<rparr>"
proof -
  let ?w = "example_world_1\<lparr>rd := \<lparr>strings = [example_access_token \<mapsto> Some (900 * Second)],
                                       zsets = Map.empty\<rparr>\<rparr>"
  let ?env = "example_call (5 * Second) ''2''"
  have h1: "strings (rd ?w) example_access_token = Some (Some (900 * Second))"
    by simp
  have h2: "alive (clock ?env) (Some (900 * Second))"
    by (simp add: alive_def example_call_def Second_def)
  have h3: "f_redis_Exists ?env = None"
    by (simp add: example_call_def)
  have v: "jwt_ValidateToken (jwtManager example_service) (clock ?env) example_access_token =
     Inr \<lparr>tc_UserID = ''user-1'', tc_Email = ''test@x.com'', tc_Exp = 900, tc_Iat = 0\<rparr>"
    by (simp add: example_defs jwt_defs time_defs)
  show ?thesis
    using denylisted_access_token_is_rejected [OF h1 h2, of example_service] h1 h2 h3 v
    by blast
qed

subsection \<open>C5: the type marker is read after the token has been parsed\<close>

text \<open>
  Claim C5, as amended. For every token string that \<open>jwt.Parse\<close> accepts (well
  formed, an HMAC method, a signature that verifies under the secret, registered
  claims in date) and whose type marker is not \<open>refresh\<close>, \<open>ValidateRefreshToken\<close>
  fails with the wrong-type error, whatever its other claims are. A token string that
  \<open>jwt.Parse\<close> rejects, an invalid signature included, is reported with the parse
  error, whatever its type marker is.
\<close>

theorem wrong_type_is_reported_after_parsing:
  "(jwt_Parse (keyFunc j) now tok = Inr t \<and> claim (Claims t) ''type'' \<noteq> Some (JString ''refresh'')
      \<longrightarrow> ValidateRefreshToken j now tok = Inl (Errorf ''invalid token type''))
   \<and> (jwt_Parse (keyFunc j) now tok = Inl e
      \<longrightarrow> ValidateRefreshToken j now tok = Inl (Wrapf ''failed to parse token'' e))"
  by (auto simp: ValidateRefreshToken_def dest: jwt_Parse_Inr_Valid)

text \<open>
  The witness: the access token of the example login, which carries no type marker,
  and a string that is no token.
\<close>

theorem wrong_type_is_reported_after_parsing_witness:
  "jwt_Parse (keyFunc example_manager) (5 * Second) example_access_token =
     Inr \<lparr>Method = SigningMethodHMAC ''HS256'',
          Claims = [(''email'', JString ''test@x.com''), (''exp'', JNumber 900), (''iat'', JNumber 0),
                    (''user_id'', JString ''user-1'')],
          Valid = True\<rparr> \<and>
   claim [(''email'', JString ''test@x.com''), (''exp'', JNumber 900), (''iat'', JNumber 0),
          (''user_id'', JString ''user-1'')] ''type'' \<noteq> Some (JString ''refresh'') \<and>
   ValidateRefreshToken example_manager (5 * Second) example_access_token = Inl (Errorf ''invalid token type'') \<and>
   jwt_Parse (keyFunc example_manager) (5 * Second) (Opaque ''not a token'') = Inl (External ''token is malformed'') \<and>
   ValidateRefreshToken example_manager (5 * Second) (Opaque ''not a token'') =
     Inl (Wrapf ''failed to parse token'' (External ''token is malformed''))"
proof -
  let ?t = "\<lparr>Method = SigningMethodHMAC ''HS256'',
          Claims = [(''email'', JString ''test@x.com''), (''exp'', JNumber 900), (''iat'', JNumber 0),
                    (''user_id'', JString ''user-1'')],
          Valid = True\<rparr>"
  have h1: "jwt_Parse (keyFunc example_manager) (5 * Second) example_access_token = Inr ?t"
    by (simp add: example_defs jwt_defs time_defs)
  have h2: "claim (Claims ?t) ''type'' \<noteq> Some (JString ''refresh'')"
    by (simp add: claim_def)
  have h3: "jwt_Parse (keyFunc example_manager) (5 * Second) (Opaque ''not a token'') =
      Inl (External ''token is malformed'')"
    by (simp add: jwt_Parse_def)
  have c1: "ValidateRefreshToken example_manager (5 * Second) example_access_token = Inl (Errorf ''invalid token type'')"
    using wrong_type_is_reported_after_parsing [of example_manager "5 * Second" example_access_token ?t] h1 h2
    by blast
  have c2: "ValidateRefreshToken example_manager (5 * Second) (Opaque ''not a token'') =
     Inl (Wrapf ''failed to parse token'' (External ''token is malformed''))"
    using wrong_type_is_reported_after_parsing [of example_manager "5 * Second" "Opaque ''not a token''" _
        "External ''token is malformed''"] h3
    by blast
  show ?thesis
    using h1 h2 h3 c1 c2 by simp
qed

text \<open>
  The counterexample to C5 as stated: a token whose type marker is \<open>access\<close> and whose
  signature does not verify is reported with the parse error, not as a wrong type.
\<close>

theorem bad_signature_is_not_reported_as_wrong_type:
  "claim [(''type'', JString ''access''), (''user_id'', JString ''user-1'')] ''type'' \<noteq> Some (JString ''refresh'') \<and>
   ValidateRefreshToken example_manager 0
     (Compact (SigningMethodHMAC ''HS256'')
        [(''type'', JString ''access''), (''user_id'', JString ''user-1'')] ''not the secret'') =
     Inl (Wrapf ''failed to parse token'' (External ''token signature is invalid: signature is invalid'')) \<and>
   ValidateRefreshToken example_manager 0
     (Compact (SigningMethodHMAC ''HS256'')
        [(''type'', JString ''access''), (''user_id'', JString ''user-1'')] ''not the secret'') \<noteq>
     Inl (Errorf ''invalid token type'')"
  by (simp add: example_defs jwt_defs)

subsection \<open>C10: a refresh token never passes access-token validation\<close>

text \<open>
  Claim C10. Every token that \<open>GenerateRefreshToken\<close> produces is refused by
  \<open>ValidateToken\<close>, of any manager and at any clock reading, and so by the service's
  \<open>ValidateToken\<close> against any stores. Where the manager holds the signing secret and
  the token is in date, the error is the one of the missing \<open>email\<close> claim: the type
  marker is not read.
\<close>

theorem refresh_token_fails_access_validation:
  assumes "GenerateRefreshToken j t0 jti uid = Inr tok"
  shows "(\<exists>e. jwt_ValidateToken j' now tok = Inl e) \<and>
         (secret j' = secret j \<and> now < time_Unix (Unix (t0 + refreshTokenExpiry j))
            \<longrightarrow> jwt_ValidateToken j' now tok = Inl (Errorf ''invalid email in token'')) \<and>
         (jwtManager s = j' \<longrightarrow> (\<exists>e. ValidateToken s env tok w = Inl e))"
proof -
  let ?cs = "[(''exp'', JNumber (Unix (t0 + refreshTokenExpiry j))), (''iat'', JNumber (Unix t0)),
              (''jti'', JString jti), (''type'', JString ''refresh''), (''user_id'', JString uid)]"
  have tok: "tok = Compact SigningMethodHS256 ?cs (secret j)"
    using assms by (simp add: GenerateRefreshToken_def SignedString_def)
  have no_email: "claim ?cs ''email'' = None"
    by (simp add: refresh_claims)
  have uid: "claim ?cs ''user_id'' = Some (JString uid)"
    by (simp add: refresh_claims)
  have a: "(\<exists>e. jwt_ValidateToken j' now tok = Inl e) \<and>
         (secret j' = secret j \<and> now < time_Unix (Unix (t0 + refreshTokenExpiry j))
            \<longrightarrow> jwt_ValidateToken j' now tok = Inl (Errorf ''invalid email in token''))" for j' now
  proof (cases "jwt_Parse (keyFunc j') now tok")
    case (Inl e)
    then show ?thesis
      by (auto simp: jwt_ValidateToken_def tok jwt_Parse_def keyFunc_def SigningMethodHS256_def
          validate_exp_def validate_nbf_def refresh_claims split: if_splits)
  next
    case (Inr t)
    then have "Claims t = ?cs" "Valid t"
      by (auto simp: tok jwt_Parse_def split: sum.splits if_splits option.splits)
    then show ?thesis
      using Inr no_email uid by (simp add: jwt_ValidateToken_def)
  qed
  have "\<exists>e. ValidateToken s env tok w = Inl e"
    using a [of "jwtManager s" "clock env"]
    by (auto simp: ValidateToken_def split: sum.splits)
  then show ?thesis
    using a [of j' now] by blast
qed

text \<open>The witness: the example refresh token, five seconds old, at the manager that issued it.\<close>

theorem refresh_token_fails_access_validation_witness:
  "GenerateRefreshToken example_manager 0 ''jti-1'' ''user-1'' = Inr example_token \<and>
   secret example_manager = secret example_manager \<and>
   5 * Second < time_Unix (Unix (0 + refreshTokenExpiry example_manager)) \<and>
   jwtManager example_service = example_manager \<and>
   jwt_ValidateToken example_manager (5 * Second) example_token = Inl (Errorf ''invalid email in token'') \<and>
   (\<exists>e. ValidateToken example_service (example_call (5 * Second) ''2'') example_token example_world_1 = Inl e)"
proof -
  have h1: "GenerateRefreshToken example_manager 0 ''jti-1'' ''user-1'' = Inr example_token"
    using example_issue by (simp add: example_service_def)
  have h2: "5 * Second < time_Unix (Unix (0 + refreshTokenExpiry example_manager))"
    by (simp add: example_defs time_defs)
  have h3: "jwtManager example_service = example_manager"
    by (simp add: example_service_def)
  show ?thesis
    using refresh_token_fails_access_validation [OF h1, of example_manager "5 * Second" example_service
        "example_call (5 * Second) ''2''" example_world_1] h1 h2 h3
    by blast
qed

subsection \<open>C8: no token pair without its record\<close>

text \<open>
  Claim C8. Issuance stands or falls with the record of the refresh token. When
  storing the record fails, for a fault of the database or for a row that breaks a
  constraint, \<open>generateAuthResponseWithRefreshToken\<close> returns the error of that
  failure and no token pair, and leaves the stores as they were. When it returns a
  token pair, the table of refresh tokens has gained exactly the record of the
  returned refresh token: keyed by its digest, owned by the user, expiring at the
  clock reading of the call plus the configured refresh lifetime.
\<close>

theorem issuance_aborts_without_the_record:
  "(GenerateRefreshToken (jwtManager s) (clock env) (uuid_jti env) (u_ID user) = Inr tok \<and>
    fst (token_Create (f_token_Create env) (uuid_token env) (clock env) (pg w)
           \<lparr>rt_ID = [], rt_UserID = u_ID user, rt_TokenHash = hashToken c tok,
            rt_ExpiresAt = clock env + svc_refreshTokenExpiry s,
            rt_CreatedAt = zero_time, rt_DeviceInfo = None, rt_IPAddress = None\<rparr>) = Inl e
      \<longrightarrow> generateAuthResponseWithRefreshToken s c env w user =
            (Inl (Wrapf ''failed to save refresh token'' e), w)) \<and>
   (generateAuthResponseWithRefreshToken s c env w user = (Inr resp, w')
      \<longrightarrow> GenerateRefreshToken (jwtManager s) (clock env) (uuid_jti env) (u_ID user) = Inr (r_RefreshToken resp) \<and>
          f_token_Create env = None \<and>
          refresh_tokens (pg w') = refresh_tokens (pg w) @
            [\<lparr>rt_ID = uuid_token env, rt_UserID = u_ID user,
              rt_TokenHash = hashToken c (r_RefreshToken resp),
              rt_ExpiresAt = clock env + svc_refreshTokenExpiry s,
              rt_CreatedAt = clock env, rt_DeviceInfo = None, rt_IPAddress = None\<rparr>])"
  using generate_Inl [of s env user tok w c e] generate_Inr [of s c env w user resp w']
  by blast

text \<open>
  The witness: issuance for the active user with the database refusing the insert, and
  the issuance inside the example rotation.
\<close>

theorem issuance_aborts_without_the_record_witness:
  "GenerateRefreshToken (jwtManager example_service) (clock ((example_call 0 ''1'')\<lparr>f_token_Create := Some ''connection refused''\<rparr>))
      (uuid_jti ((example_call 0 ''1'')\<lparr>f_token_Create := Some ''connection refused''\<rparr>)) (u_ID alice) = Inr example_token \<and>
   generateAuthResponseWithRefreshToken example_service example_crypto
      ((example_call 0 ''1'')\<lparr>f_token_Create := Some ''connection refused''\<rparr>) example_world alice =
     (Inl (Wrapf ''failed to save refresh token''
            (Wrapf ''failed to create token'' (External ''connection refused''))), example_world) \<and>
   generateAuthResponseWithRefreshToken example_service example_crypto example_rotation_call
      example_world_1 alice = (Inr example_response_2, example_world_2\<lparr>rd := rd example_world_1\<rparr>) \<and>
   refresh_tokens (pg (example_world_2\<lparr>rd := rd example_world_1\<rparr>)) =
     refresh_tokens (pg example_world_1) @
       [\<lparr>rt_ID = ''token-2'', rt_UserID = ''user-1'',
         rt_TokenHash = hashToken example_crypto example_token_2,
         rt_ExpiresAt = 1000 * Second + 604800 * Second,
         rt_CreatedAt = 1000 * Second, rt_DeviceInfo = None, rt_IPAddress = None\<rparr>]"
proof -
  let ?env = "(example_call 0 ''1'')\<lparr>f_token_Create := Some ''connection refused''\<rparr>"
  let ?e = "Wrapf ''failed to create token'' (External ''connection refused'')"
  have h1: "GenerateRefreshToken (jwtManager example_service) (clock ?env) (uuid_jti ?env) (u_ID alice) = Inr example_token"
    by (simp add: example_defs jwt_defs time_defs)
  have h2: "fst (token_Create (f_token_Create ?env) (uuid_token ?env) (clock ?env) (pg example_world)
           \<lparr>rt_ID = [], rt_UserID = u_ID alice, rt_TokenHash = hashToken example_crypto example_token,
            rt_ExpiresAt = clock ?env + svc_refreshTokenExpiry example_service,
            rt_CreatedAt = zero_time, rt_DeviceInfo = None, rt_IPAddress = None\<rparr>) = Inl ?e"
    by (simp add: token_Create_def example_call_def Let_def)
  have h3: "generateAuthResponseWithRefreshToken example_service example_crypto example_rotation_call
      example_world_1 alice = (Inr example_response_2, example_world_2\<lparr>rd := rd example_world_1\<rparr>)"
    by (simp add: generateAuthResponseWithRefreshToken_def
        example_defs jwt_defs time_defs store_defs Let_def)
  have c1: "generateAuthResponseWithRefreshToken example_service example_crypto ?env example_world alice =
     (Inl (Wrapf ''failed to save refresh token'' ?e), example_world)"
    using issuance_aborts_without_the_record [where s = example_service and env = ?env and user = alice
        and tok = example_token and c = example_crypto and w = example_world and e = ?e] h1 h2
    by blast
  have c2: "refresh_tokens (pg (example_world_2\<lparr>rd := rd example_world_1\<rparr>)) =
     refresh_tokens (pg example_world_1) @
       [\<lparr>rt_ID = ''token-2'', rt_UserID = ''user-1'',
         rt_TokenHash = hashToken example_crypto example_token_2,
         rt_ExpiresAt = 1000 * Second + 604800 * Second,
         rt_CreatedAt = 1000 * Second, rt_DeviceInfo = None, rt_IPAddress = None\<rparr>]"
    using issuance_aborts_without_the_record [where s = example_service and env = example_rotation_call
        and user = alice and c = example_crypto and w = example_world_1 and resp = example_response_2
        and w' = "example_world_2\<lparr>rd := rd example_world_1\<rparr>"] h3
    by (simp add: example_defs)
  show ?thesis
    using h1 c1 h3 c2 by blast
qed

subsection \<open>C9: logout revokes the caller's own token and nothing else\<close>

text \<open>
  Claim C9. \<open>Logout\<close> returns success for every user id and raw refresh token. When
  the token is empty, or the lookup by its digest returns no record (none stored, or
  the lookup failed), or the record belongs to another user, it revokes nothing: the
  stores are unchanged. When a record with the token's digest is found and its owner
  is the caller, the stores are what the denylist-add and the record-delete leave.
\<close>

theorem logout_revokes_only_the_callers_token:
  "fst (Logout s c env userID token w) = None \<and>
   (token = Opaque [] \<or>
    (\<forall>dbToken. token_GetByTokenHash (f_token_GetByTokenHash env) (pg w) (hashToken c token) = Inr dbToken
        \<longrightarrow> rt_UserID dbToken \<noteq> userID)
      \<longrightarrow> snd (Logout s c env userID token w) = w) \<and>
   (token \<noteq> Opaque [] \<and>
    token_GetByTokenHash (f_token_GetByTokenHash env) (pg w) (hashToken c token) = Inr dbToken \<and>
    rt_UserID dbToken = userID
      \<longrightarrow> snd (Logout s c env userID token w) =
            \<lparr>pg = snd (token_DeleteByTokenHash (f_token_DeleteByTokenHash env) (pg w) (hashToken c token)),
             rd = snd (AddToken (f_redis_Set env) (clock env) (rd w) token (svc_refreshTokenExpiry s))\<rparr>)"
  by (auto simp: Logout_def Let_def split: sum.splits prod.splits)

text \<open>
  The witness, on the stores of the example login: an empty token, a token without a
  record, the example token presented by the other user, and the example token
  presented by its owner.
\<close>

theorem logout_revokes_only_the_callers_token_witness:
  "Logout example_service example_crypto (example_call (2000 * Second) ''3'') ''user-1'' (Opaque []) example_world_1 =
     (None, example_world_1) \<and>
   token_GetByTokenHash (f_token_GetByTokenHash (example_call (2000 * Second) ''3'')) (pg example_world_1)
      (hashToken example_crypto example_token_2) = Inl (Wrapf ''token with hash not found'' ErrNotFound) \<and>
   Logout example_service example_crypto (example_call (2000 * Second) ''3'') ''user-1'' example_token_2 example_world_1 =
     (None, example_world_1) \<and>
   token_GetByTokenHash (f_token_GetByTokenHash (example_call (2000 * Second) ''3'')) (pg example_world_1)
      (hashToken example_crypto example_token) = Inr example_record \<and>
   rt_UserID example_record \<noteq> ''user-0'' \<and>
   Logout example_service example_crypto (example_call (2000 * Second) ''3'') ''user-0'' example_token example_world_1 =
     (None, example_world_1) \<and>
   example_token \<noteq> Opaque [] \<and>
   rt_UserID example_record = ''user-1'' \<and>
   Logout example_service example_crypto (example_call (2000 * Second) ''3'') ''user-1'' example_token example_world_1 =
     (None, \<lparr>pg = \<lparr>users = [bob, alice\<lparr>u_LastLoginAt := Some 0\<rparr>], refresh_tokens = []\<rparr>,
             rd = \<lparr>strings = [example_token \<mapsto> Some (2000 * Second + 604800 * Second)], zsets = Map.empty\<rparr>\<rparr>)"
proof -
  let ?env = "example_call (2000 * Second) ''3''"
  have g2: "token_GetByTokenHash (f_token_GetByTokenHash ?env) (pg example_world_1)
      (hashToken example_crypto example_token_2) = Inl (Wrapf ''token with hash not found'' ErrNotFound)"
    by (simp add: example_defs store_defs claim_def)
  have g1: "token_GetByTokenHash (f_token_GetByTokenHash ?env) (pg example_world_1)
      (hashToken example_crypto example_token) = Inr example_record"
    by (simp add: example_defs store_defs claim_def)
  have n0: "rt_UserID example_record \<noteq> ''user-0''" and n1: "rt_UserID example_record = ''user-1''"
    and ne: "example_token \<noteq> Opaque []"
    by (simp_all add: example_defs)
  note L = logout_revokes_only_the_callers_token [of example_service example_crypto ?env]
  have a: "Logout example_service example_crypto ?env ''user-1'' (Opaque []) example_world_1 = (None, example_world_1)"
    using L [of "''user-1''" "Opaque []" example_world_1] by (simp add: prod_eq_iff)
  have b: "Logout example_service example_crypto ?env ''user-1'' example_token_2 example_world_1 = (None, example_world_1)"
    using L [of "''user-1''" example_token_2 example_world_1] g2 by (simp add: prod_eq_iff)
  have d: "Logout example_service example_crypto ?env ''user-0'' example_token example_world_1 = (None, example_world_1)"
    using L [of "''user-0''" example_token example_world_1] g1 n0 by (simp add: prod_eq_iff)
  have "snd (Logout example_service example_crypto ?env ''user-1'' example_token example_world_1) =
     \<lparr>pg = snd (token_DeleteByTokenHash (f_token_DeleteByTokenHash ?env) (pg example_world_1) (hashToken example_crypto example_token)),
      rd = snd (AddToken (f_redis_Set ?env) (clock ?env) (rd example_world_1) example_token (svc_refreshTokenExpiry example_service))\<rparr>"
    using L [of "''user-1''" example_token example_world_1 example_record] g1 n1 ne by blast
  moreover have "fst (Logout example_service example_crypto ?env ''user-1'' example_token example_world_1) = None"
    using L [of "''user-1''" example_token example_world_1] by blast
  ultimately have f: "Logout example_service example_crypto ?env ''user-1'' example_token example_world_1 =
     (None, \<lparr>pg = \<lparr>users = [bob, alice\<lparr>u_LastLoginAt := Some 0\<rparr>], refresh_tokens = []\<rparr>,
             rd = \<lparr>strings = [example_token \<mapsto> Some (2000 * Second + 604800 * Second)], zsets = Map.empty\<rparr>\<rparr>)"
    by (simp add: prod_eq_iff example_defs store_defs claim_def time_defs)
  show ?thesis
    using a g2 b g1 n0 d ne n1 f by blast
qed

subsection \<open>C6: the texts of a failed login\<close>

lemma sanitize_bob: "SanitizeEmail ''bob@x.com'' = ''bob@x.com''"
  by (simp add: SanitizeEmail_def ToLower_def TrimSpace_def is_space_def to_lower_char_def is_upper_def)

lemma sanitize_nobody: "SanitizeEmail ''nobody@x.com'' = ''nobody@x.com''"
  by (simp add: SanitizeEmail_def ToLower_def TrimSpace_def is_space_def to_lower_char_def is_upper_def)

text \<open>
  Claim C6, as amended. A login for an account that exists but is inactive fails with
  the text \<open>user account is inactive\<close>, whatever the password; a login for an active
  account with a wrong password fails with \<open>invalid email or password\<close>. The two
  texts differ. Every failed login is answered by the handler with status 401 and the
  category \<open>Unauthorized\<close>, the error's text as the message.
\<close>

theorem failed_login_messages:
  "(user_GetByEmail (f_user_GetByEmail env) (pg w) (SanitizeEmail (login_Email req)) = Inr user \<and>
    \<not> u_IsActive user
      \<longrightarrow> Login s c env req w = (Inl (Errorf ''user account is inactive''), w)) \<and>
   (user_GetByEmail (f_user_GetByEmail env) (pg w) (SanitizeEmail (login_Email req)) = Inr user \<and>
    u_IsActive user \<and> \<not> CheckPasswordHash c (login_Password req) (u_PasswordHash user)
      \<longrightarrow> Login s c env req w = (Inl (Errorf ''invalid email or password''), w)) \<and>
   (fst (Login s c env req w) = Inl e
      \<longrightarrow> fst (handler_Login s c env req w) =
            \<lparr>code = 401, body = ErrorResponse ''Unauthorized'' (Error e), cookie = None\<rparr>)"
  by (auto simp: Login_def handler_Login_def split: sum.splits prod.splits)

text \<open>
  The witness: the inactive user with the right password, and the active user with a
  wrong one.
\<close>

theorem failed_login_messages_witness:
  "user_GetByEmail (f_user_GetByEmail (example_call 0 ''1'')) (pg example_world)
      (SanitizeEmail (login_Email \<lparr>login_Email = ''bob@x.com'', login_Password = ''Passw0rd2''\<rparr>)) = Inr bob \<and>
   \<not> u_IsActive bob \<and>
   CheckPasswordHash example_crypto ''Passw0rd2'' (u_PasswordHash bob) \<and>
   Login example_service example_crypto (example_call 0 ''1'')
      \<lparr>login_Email = ''bob@x.com'', login_Password = ''Passw0rd2''\<rparr> example_world =
     (Inl (Errorf ''user account is inactive''), example_world) \<and>
   user_GetByEmail (f_user_GetByEmail (example_call 0 ''1'')) (pg example_world)
      (SanitizeEmail (login_Email \<lparr>login_Email = ''test@x.com'', login_Password = ''Wrong0000''\<rparr>)) = Inr alice \<and>
   u_IsActive alice \<and>
   \<not> CheckPasswordHash example_crypto ''Wrong0000'' (u_PasswordHash alice) \<and>
   Login example_service example_crypto (example_call 0 ''1'')
      \<lparr>login_Email = ''test@x.com'', login_Password = ''Wrong0000''\<rparr> example_world =
     (Inl (Errorf ''invalid email or password''), example_world) \<and>
   fst (handler_Login example_service example_crypto (example_call 0 ''1'')
      \<lparr>login_Email = ''test@x.com'', login_Password = ''Wrong0000''\<rparr> example_world) =
     \<lparr>code = 401, body = ErrorResponse ''Unauthorized'' ''invalid email or password'', cookie = None\<rparr>"
proof -
  let ?env = "example_call 0 ''1''"
  let ?rb = "\<lparr>login_Email = ''bob@x.com'', login_Password = ''Passw0rd2''\<rparr>"
  let ?ra = "\<lparr>login_Email = ''test@x.com'', login_Password = ''Wrong0000''\<rparr>"
  have b1: "user_GetByEmail (f_user_GetByEmail ?env) (pg example_world) (SanitizeEmail (login_Email ?rb)) = Inr bob"
    by (simp add: sanitize_bob user_GetByEmail_def example_call_def example_world_def bob_def)
  have b2: "\<not> u_IsActive bob" and b3: "CheckPasswordHash example_crypto ''Passw0rd2'' (u_PasswordHash bob)"
    by (simp_all add: bob_def CheckPasswordHash_def example_crypto_def)
  have a1: "user_GetByEmail (f_user_GetByEmail ?env) (pg example_world) (SanitizeEmail (login_Email ?ra)) = Inr alice"
    by (simp add: sanitize_test user_GetByEmail_def example_call_def example_world_def bob_def alice_def)
  have a2: "u_IsActive alice" and a3: "\<not> CheckPasswordHash example_crypto (login_Password ?ra) (u_PasswordHash alice)"
    by (simp_all add: alice_def CheckPasswordHash_def example_crypto_def)
  note T = failed_login_messages [where s = example_service and c = example_crypto and env = ?env
      and w = example_world]
  have c1: "Login example_service example_crypto ?env ?rb example_world =
     (Inl (Errorf ''user account is inactive''), example_world)"
    using T [where req = ?rb and user = bob] b1 b2 by blast
  have c2: "Login example_service example_crypto ?env ?ra example_world =
     (Inl (Errorf ''invalid email or password''), example_world)"
    using T [where req = ?ra and user = alice] a1 a2 a3 by blast
  have c3: "fst (handler_Login example_service example_crypto ?env ?ra example_world) =
     \<lparr>code = 401, body = ErrorResponse ''Unauthorized'' ''invalid email or password'', cookie = None\<rparr>"
    using T [where req = ?ra and e = "Errorf ''invalid email or password''"] c2 by simp
  show ?thesis
    using b1 b2 b3 c1 a1 a2 a3 c2 c3 by simp
qed

text \<open>
  The counterexample to C6 as stated: the responses to a wrong password, to an inactive
  account (with its right password) and to an address nobody registered carry three
  different messages.
\<close>

theorem failed_login_messages_differ:
  "fst (handler_Login example_service example_crypto (example_call 0 ''1'')
      \<lparr>login_Email = ''test@x.com'', login_Password = ''Wrong0000''\<rparr> example_world) =
     \<lparr>code = 401, body = ErrorResponse ''Unauthorized'' ''invalid email or password'', cookie = None\<rparr> \<and>
   fst (handler_Login example_service example_crypto (example_call 0 ''1'')
      \<lparr>login_Email = ''bob@x.com'', login_Password = ''Passw0rd2''\<rparr> example_world) =
     \<lparr>code = 401, body = ErrorResponse ''Unauthorized'' ''user account is inactive'', cookie = None\<rparr> \<and>
   CheckPasswordHash example_crypto ''Passw0rd2'' (u_PasswordHash bob) \<and>
   fst (handler_Login example_service example_crypto (example_call 0 ''1'')
      \<lparr>login_Email = ''nobody@x.com'', login_Password = ''Passw0rd2''\<rparr> example_world) =
     \<lparr>code = 401,
      body = ErrorResponse ''Unauthorized''
        ''failed to get user: user with email nobody@x.com not found: record not found'',
      cookie = None\<rparr> \<and>
   ''invalid email or password'' \<noteq> ''user account is inactive''"
  by (simp add: handler_Login_def Login_def sanitize_test sanitize_bob sanitize_nobody
      user_GetByEmail_def CheckPasswordHash_def
      example_call_def example_world_def example_crypto_def bob_def alice_def)

subsection \<open>C4: registering an address that differs in case from a registered one\<close>

text \<open>
  \<open>GetByEmail\<close> hands back the sentinel \<open>ErrNotFound\<close> wrapped by \<open>%w\<close>, and
  \<open>Register\<close> compares what it got with the sentinel by \<open>!=\<close>: the comparison never
  finds them equal, so \<open>Register\<close> takes every answer of the lookup other than a user
  for a failure of the lookup. It fails on every input and writes nothing.
\<close>

lemma Register_never_finds_not_found:
  "user_GetByEmail fault db email \<noteq> Inl ErrNotFound"
  by (simp add: user_GetByEmail_def split: option.splits)

lemma Register_always_fails:
  "\<exists>e. Register s c env req w = (Inl e, w)"
  by (auto simp: Register_def user_GetByEmail_def split: option.splits sum.splits)

lemma valid_Test: "ValidateEmail ''Test@x.com''" "ValidateEmail ''test@x.com''" "ValidatePassword ''Passw0rd1''"
  by (simp_all add: ValidateEmail_def ValidatePassword_def local_char_def domain_char_def is_alpha_def
      is_upper_def is_lower_def is_digit_def)

lemma sanitize_Test: "SanitizeEmail ''Test@x.com'' = ''test@x.com''"
  by code_simp

text \<open>
  Claim C4 at its own example. The database holds a user with the address
  \<open>test@x.com\<close>; \<open>Register\<close> is called with \<open>Test@x.com\<close> and a valid password. The
  lookup, made with the address as it was typed, finds nobody; the wrapped not-found
  error is taken for a failure, and the handler answers 400 Bad request, not 409
  Conflict. The first call of the claim's pair, \<open>test@x.com\<close> on an empty database,
  is answered the same way and creates no user.
\<close>

theorem register_duplicate_is_not_a_conflict:
  "SanitizeEmail ''Test@x.com'' = SanitizeEmail ''test@x.com'' \<and>
   u_Email alice = SanitizeEmail ''test@x.com'' \<and>
   find (\<lambda>u. u_Email u = ''test@x.com'') (users (pg example_world)) = Some alice \<and>
   handler_Register example_service example_crypto (example_call 0 ''2'')
      \<lparr>reg_Email = ''Test@x.com'', reg_Password = ''Passw0rd1''\<rparr> example_world =
     (\<lparr>code = 400,
       body = ErrorResponse ''Bad request''
         ''failed to check user existence: user with email Test@x.com not found: record not found'',
       cookie = None\<rparr>, example_world) \<and>
   handler_Register example_service example_crypto (example_call 0 ''2'')
      \<lparr>reg_Email = ''test@x.com'', reg_Password = ''Passw0rd1''\<rparr>
      (example_world\<lparr>pg := \<lparr>users = [], refresh_tokens = []\<rparr>\<rparr>) =
     (\<lparr>code = 400,
       body = ErrorResponse ''Bad request''
         ''failed to check user existence: user with email test@x.com not found: record not found'',
       cookie = None\<rparr>, example_world\<lparr>pg := \<lparr>users = [], refresh_tokens = []\<rparr>\<rparr>)"
  by (simp add: sanitize_Test sanitize_test handler_Register_def Register_def valid_Test
      user_GetByEmail_def example_call_def example_world_def bob_def alice_def)

subsection \<open>C7: the limiter is a sliding-window log of whole seconds\<close>

text \<open>The decimal digits of a number determine it, and hold no minus sign.\<close>

lemma of_char_digit: "(d::nat) < 10 \<Longrightarrow> of_char (char_of (48 + d)) = (48 + d :: nat)"
  by (simp add: of_char_of)

lemma digit_inj: "(d::nat) < 10 \<Longrightarrow> (d'::nat) < 10 \<Longrightarrow> char_of (48 + d) = (char_of (48 + d') :: char) \<Longrightarrow> d = d'"
proof -
  assume a: "d < 10" "d' < 10" and e: "char_of (48 + d) = (char_of (48 + d') :: char)"
  have "(of_char (char_of (48 + d) :: char) :: nat) = of_char (char_of (48 + d') :: char)"
    using e by simp
  then show "d = d'"
    using a by (simp add: of_char_digit)
qed

lemma digit_not_minus: "(d::nat) < 10 \<Longrightarrow> char_of (48 + d) \<noteq> CHR ''-''"
proof
  assume a: "d < 10" and e: "char_of (48 + d) = CHR ''-''"
  have "(of_char (char_of (48 + d) :: char) :: nat) = of_char (CHR ''-'')"
    using e by simp
  then show False
    using a by (simp add: of_char_digit)
qed

lemma digits_not_Nil: "digits n \<noteq> []"
  by (subst digits.simps) simp

lemma digits_no_minus: "CHR ''-'' \<notin> set (digits n)"
proof (induction n rule: digits.induct)
  case (1 n)
  show ?case
  proof (cases "n < 10")
    case True
    then show ?thesis
      using digit_not_minus [of n] by (subst digits.simps) auto
  next
    case False
    then have "CHR ''-'' \<notin> set (digits (n div 10))" using 1 by simp
    moreover have "char_of (48 + n mod 10) \<noteq> CHR ''-''"
      by (rule digit_not_minus) simp
    ultimately show ?thesis
      using False by (subst digits.simps) auto
  qed
qed

lemma digits_length: "\<not> n < 10 \<Longrightarrow> 2 \<le> length (digits n)"
  using digits_not_Nil [of "n div 10"]
  by (subst digits.simps) (simp add: Suc_le_eq)

lemma digits_inj: "digits m = digits n \<Longrightarrow> m = n"
proof (induction m arbitrary: n rule: digits.induct)
  case (1 m)
  show ?case
  proof (cases "m < 10")
    case True
    then have lm: "digits m = [char_of (48 + m)]" by (subst digits.simps) simp
    show ?thesis
    proof (cases "n < 10")
      case True
      then have "digits n = [char_of (48 + n)]" by (subst digits.simps) simp
      then show ?thesis using lm 1(2) \<open>m < 10\<close> True digit_inj by auto
    next
      case False
      then show ?thesis using digits_length [of n] lm 1(2) by simp
    qed
  next
    case False
    then have lm: "digits m = digits (m div 10) @ [char_of (48 + m mod 10)]"
      by (subst digits.simps) simp
    show ?thesis
    proof (cases "n < 10")
      case True
      then have "digits n = [char_of (48 + n)]" by (subst digits.simps) simp
      then show ?thesis using digits_length [OF False] 1(2) by simp
    next
      case nf: False
      then have ln: "digits n = digits (n div 10) @ [char_of (48 + n mod 10)]"
        by (subst digits.simps) simp
      have "digits (m div 10) = digits (n div 10)"
        and c: "char_of (48 + m mod 10) = (char_of (48 + n mod 10) :: char)"
        using lm ln 1(2) by simp_all
      then have "m div 10 = n div 10" using 1(1) False by blast
      moreover have "m mod 10 = n mod 10"
        using c by (intro digit_inj) simp_all
      ultimately show ?thesis
        by (metis div_mult_mod_eq)
    qed
  qed
qed

lemma split_at_first:
  assumes "xs @ c # ys = xs' @ c # ys'" and "c \<notin> set xs" and "c \<notin> set xs'"
  shows "xs = xs'"
proof -
  have "takeWhile (\<lambda>x. x \<noteq> c) (xs @ c # ys) = xs"
    using assms(2) by (induction xs) auto
  moreover have "takeWhile (\<lambda>x. x \<noteq> c) (xs' @ c # ys') = xs'"
    using assms(3) by (induction xs') auto
  ultimately show ?thesis using assms(1) by simp
qed

lemma member_inj:
  assumes "0 \<le> t" and "0 \<le> t'" and "Itoa t @ ''-'' @ Itoa (Unix t) = Itoa t' @ ''-'' @ Itoa (Unix t')"
  shows "t = t'"
proof -
  have "digits (nat t) @ CHR ''-'' # Itoa (Unix t) = digits (nat t') @ CHR ''-'' # Itoa (Unix t')"
    using assms by (simp add: Itoa_def)
  then have "digits (nat t) = digits (nat t')"
    by (rule split_at_first) (rule digits_no_minus)+
  then have "nat t = nat t'" by (rule digits_inj)
  then show ?thesis using assms(1,2) by simp
qed

text \<open>One call of the limiter with Redis answering, by what it counts.\<close>

lemma zget_zput:
  "zget now (zput r k z) k = (if members z = [] then None else if alive now (z_expires z) then Some z else None)"
  by (simp add: zget_def zput_def)

text \<open>After the trimming, the live key holds what is counted.\<close>

lemma ZRemRangeByScore_answering:
  "redis_ZRemRangeByScore None now r k 0 (Unix (now - window)) = (None, r1) \<Longrightarrow>
   (case zget now r1 k of None \<Rightarrow> [] | Some z \<Rightarrow> members z) = counted now window r k \<and>
   zsets r1 k = (case zget now r k of
                   None \<Rightarrow> zsets r k
                 | Some z \<Rightarrow> if counted now window r k = [] then None
                             else Some (z\<lparr>members := counted now window r k\<rparr>))"
  by (auto simp: redis_ZRemRangeByScore_def counted_def zget_zput zget_def zput_def split: option.splits if_splits)

lemma ZRemRangeByScore_answering_ex:
  "\<exists>r1. redis_ZRemRangeByScore None now r k lo hi = (None, r1)"
  by (simp add: redis_ZRemRangeByScore_def split: option.splits)

lemma Expire_answering_ex:
  "\<exists>r3. redis_Expire None now r k ttl = (None, r3)"
  by (simp add: redis_Expire_def split: option.splits)

lemma Allow_denies:
  assumes "limit \<le> int (length (counted t window r k))"
  shows "fst (fst (Allow (answering t) r k limit window)) = False \<and>
         zsets (snd (Allow (answering t) r k limit window)) k =
           (case zget t r k of
              None \<Rightarrow> zsets r k
            | Some z \<Rightarrow> if counted t window r k = [] then None
                        else Some (z\<lparr>members := counted t window r k\<rparr>))"
proof -
  obtain r1 where r1: "redis_ZRemRangeByScore None t r k 0 (Unix (t - window)) = (None, r1)"
    using ZRemRangeByScore_answering_ex by blast
  note f = ZRemRangeByScore_answering [OF r1]
  have card: "redis_ZCard None t r1 k = Inr (int (length (counted t window r k)))"
    using f by (auto simp: redis_ZCard_def split: option.splits)
  show ?thesis
    using r1 card assms f
    by (auto simp: Allow_def answering_def Let_def split: sum.splits option.splits)
qed

lemma Allow_admits:
  assumes "int (length (counted t window r k)) < limit" and "0 < window + Minute"
  shows "fst (Allow (answering t) r k limit window) = (True, None) \<and>
         zsets (snd (Allow (answering t) r k limit window)) k =
           Some \<lparr>members = filter (\<lambda>(m, s). m \<noteq> Itoa t @ ''-'' @ Itoa (Unix t)) (counted t window r k)
                             @ [(Itoa t @ ''-'' @ Itoa (Unix t), Unix t)],
                 z_expires = Some (t + (window + Minute))\<rparr>"
proof -
  obtain r1 where r1: "redis_ZRemRangeByScore None t r k 0 (Unix (t - window)) = (None, r1)"
    using ZRemRangeByScore_answering_ex by blast
  note f = ZRemRangeByScore_answering [OF r1]
  have card: "redis_ZCard None t r1 k = Inr (int (length (counted t window r k)))"
    using f by (auto simp: redis_ZCard_def split: option.splits)
  let ?mem = "Itoa t @ ''-'' @ Itoa (Unix t)"
  obtain r2 where r2: "redis_ZAdd None t r1 k (Unix t) ?mem = (None, r2)"
    by (simp add: redis_ZAdd_def Let_def)
  have z2: "\<exists>ex. alive t ex \<and> zsets r2 k = Some \<lparr>members = filter (\<lambda>(m, s). m \<noteq> ?mem) (counted t window r k) @ [(?mem, Unix t)],
                 z_expires = ex\<rparr>"
    using r2 f by (auto simp: redis_ZAdd_def Let_def zget_def alive_def split: option.splits if_splits)
  then obtain ex where ex: "alive t ex" "zsets r2 k = Some \<lparr>members = filter (\<lambda>(m, s). m \<noteq> ?mem) (counted t window r k) @ [(?mem, Unix t)],
                 z_expires = ex\<rparr>" by blast
  obtain r3 where r3: "redis_Expire None t r2 k (window + Minute) = (None, r3)"
    using Expire_answering_ex by blast
  have z3: "zsets r3 k = Some \<lparr>members = filter (\<lambda>(m, s). m \<noteq> ?mem) (counted t window r k) @ [(?mem, Unix t)],
                 z_expires = Some (t + (window + Minute))\<rparr>"
    using r3 ex assms(2) by (auto simp: redis_Expire_def zget_def split: option.splits if_splits)
  show ?thesis
    using r1 card assms(1) r2 r3 z3
    by (auto simp: Allow_def answering_def Let_def split: sum.splits option.splits)
qed

text \<open>Seconds and instants.\<close>

lemma Unix_mono: "a \<le> b \<Longrightarrow> Unix a \<le> Unix b"
  by (simp add: Unix_def Second_def zdiv_mono1)

lemma time_Unix_le_iff: "time_Unix sec \<le> t \<longleftrightarrow> sec \<le> Unix t"
proof
  assume "time_Unix sec \<le> t"
  then have "Unix (time_Unix sec) \<le> Unix t" by (rule Unix_mono)
  then show "sec \<le> Unix t" by (simp add: Unix_def time_Unix_def Second_def)
next
  assume "sec \<le> Unix t"
  then have "time_Unix sec \<le> time_Unix (Unix t)"
    by (simp add: time_Unix_def Second_def)
  then show "time_Unix sec \<le> t"
    using Unix_le [of t] by linarith
qed

lemma counted_subset:
  "set (counted t window r k) \<subseteq> set (case zsets r k of None \<Rightarrow> [] | Some z \<Rightarrow> members z)"
  by (auto simp: counted_def zget_def split: option.splits if_splits)

text \<open>Under the invariant, the scores that a later call counts are the admitted seconds of its window.\<close>

lemma counted_scores:
  assumes inv: "limiter_inv k window T r admitted" and "T < t"
  shows "map snd (counted t window r k) = filter (\<lambda>sec. Unix (t - window) < sec) admitted"
proof -
  let ?thr = "Unix (t - window)"
  define ms where "ms = (case zsets r k of None \<Rightarrow> [] | Some z \<Rightarrow> members z)"
  have thr: "Unix (T - window) \<le> ?thr"
    using assms(2) by (intro Unix_mono) simp
  have i: "filter (\<lambda>sec. ?thr < sec) (map snd ms) = filter (\<lambda>sec. ?thr < sec) admitted"
    using inv thr by (simp add: limiter_inv_def Let_def ms_def)
  have nonneg: "\<forall>(m, sec) \<in> set ms. 0 \<le> sec"
    using inv by (auto simp: limiter_inv_def Let_def ms_def)
  have trim: "map snd (filter (\<lambda>(m, s). \<not> (0 \<le> s \<and> s \<le> ?thr)) ms) = filter (\<lambda>sec. ?thr < sec) (map snd ms)"
    using nonneg by (induction ms) auto
  show ?thesis
  proof (cases "zget t r k")
    case (Some z)
    then have "ms = members z" "counted t window r k = filter (\<lambda>(m, s). \<not> (0 \<le> s \<and> s \<le> ?thr)) ms"
      by (auto simp: ms_def counted_def zget_def split: option.splits if_splits)
    then show ?thesis using trim i by simp
  next
    case None
    then have c: "counted t window r k = []" by (simp add: counted_def)
    have "filter (\<lambda>sec. ?thr < sec) (map snd ms) = []"
    proof (cases "zsets r k")
      case None
      then show ?thesis by (simp add: ms_def)
    next
      case (Some z)
      then have "\<not> alive t (z_expires z)" using \<open>zget t r k = None\<close> by (simp add: zget_def split: if_splits)
      then obtain x where x: "z_expires z = Some x" "x \<le> t"
        by (auto simp: alive_def split: option.splits)
      have "\<forall>(m, sec) \<in> set ms. time_Unix sec + window + Minute \<le> x"
        using inv Some x by (auto simp: limiter_inv_def Let_def ms_def)
      then have "\<forall>(m, sec) \<in> set ms. time_Unix sec \<le> t - window"
        using x(2) by (auto simp: Minute_def Second_def)
      then have "\<forall>(m, sec) \<in> set ms. sec \<le> ?thr"
        by (simp add: time_Unix_le_iff)
      then show ?thesis
        by (auto simp: filter_empty_conv)
    qed
    then show ?thesis using c i by simp
  qed
qed

text \<open>The invariant of a run is kept by a call that denies and by a call that admits.\<close>

lemma limiter_inv_deny:
  assumes inv: "limiter_inv k window T r admitted" and "T < t"
    and deny: "limit \<le> int (length (counted t window r k))"
  shows "limiter_inv k window t (snd (Allow (answering t) r k limit window)) admitted"
proof -
  let ?r' = "snd (Allow (answering t) r k limit window)"
  let ?thr = "Unix (t - window)"
  define ms where "ms = (case zsets r k of None \<Rightarrow> [] | Some z \<Rightarrow> members z)"
  have z': "zsets ?r' k =
           (case zget t r k of
              None \<Rightarrow> zsets r k
            | Some z \<Rightarrow> if counted t window r k = [] then None
                        else Some (z\<lparr>members := counted t window r k\<rparr>))"
    using Allow_denies [OF deny] by blast
  have thr: "Unix (T - window) \<le> ?thr"
    using assms(2) by (intro Unix_mono) simp
  have T: "Unix T \<le> Unix t"
    using assms(2) by (intro Unix_mono) simp
  show ?thesis
  proof (cases "zget t r k")
    case None
    then have "zsets ?r' k = zsets r k" using z' by simp
    then show ?thesis
      using inv thr T assms(2) unfolding limiter_inv_def Let_def
      by (fastforce split: option.splits)
  next
    case (Some z)
    then have z: "zsets r k = Some z" by (simp add: zget_def split: option.splits if_splits)
    define ms' where "ms' = (case zsets ?r' k of None \<Rightarrow> [] | Some z \<Rightarrow> members z)"
    define ex' where "ex' = (case zsets ?r' k of None \<Rightarrow> None | Some z \<Rightarrow> z_expires z)"
    have ms': "ms' = counted t window r k"
      using z' Some by (simp add: ms'_def)
    have ex': "ex' = None \<or> ex' = z_expires z"
      using z' Some by (simp add: ex'_def)
    have sub: "set ms' \<subseteq> set (members z)"
      using counted_subset [of t window r k] z ms' by simp
    have a: "filter (\<lambda>sec. thr < sec) (map snd ms') = filter (\<lambda>sec. thr < sec) admitted"
      if "?thr \<le> thr" for thr
      using that by (auto simp: ms' counted_scores [OF inv assms(2)] intro!: filter_cong)
    have old: "\<forall>(m, sec) \<in> set (members z). 0 \<le> sec \<and> sec \<le> Unix T \<and>
            (\<exists>t'. 0 \<le> t' \<and> t' \<le> T \<and> m = Itoa t' @ ''-'' @ Itoa (Unix t'))"
      and oldx: "\<forall>x. z_expires z = Some x \<longrightarrow> (\<forall>(m, sec) \<in> set (members z). time_Unix sec + window + Minute \<le> x)"
      using inv z by (simp_all add: limiter_inv_def Let_def)
    have b: "\<forall>(m, sec) \<in> set ms'. 0 \<le> sec \<and> sec \<le> Unix t \<and>
            (\<exists>t'. 0 \<le> t' \<and> t' \<le> t \<and> m = Itoa t' @ ''-'' @ Itoa (Unix t'))"
      using old sub T assms(2) by fastforce
    have c: "\<forall>x. ex' = Some x \<longrightarrow> (\<forall>(m, sec) \<in> set ms'. time_Unix sec + window + Minute \<le> x)"
    proof (intro allI impI)
      fix x assume "ex' = Some x"
      then have "z_expires z = Some x" using ex' by auto
      then show "\<forall>(m, sec) \<in> set ms'. time_Unix sec + window + Minute \<le> x"
        using oldx sub by blast
    qed
    show ?thesis
      unfolding limiter_inv_def Let_def
      using a b c by (simp add: ms'_def ex'_def)
  qed
qed

lemma limiter_inv_admit:
  assumes inv: "limiter_inv k window T r admitted" and "T < t" and "0 \<le> t" and "0 < window + Minute"
    and admit: "int (length (counted t window r k)) < limit"
  shows "limiter_inv k window t (snd (Allow (answering t) r k limit window)) (admitted @ [Unix t])"
proof -
  let ?r' = "snd (Allow (answering t) r k limit window)"
  let ?thr = "Unix (t - window)"
  let ?mem = "Itoa t @ ''-'' @ Itoa (Unix t)"
  define ms where "ms = (case zsets r k of None \<Rightarrow> [] | Some z \<Rightarrow> members z)"
  have T: "Unix T \<le> Unix t"
    using assms(2) by (intro Unix_mono) simp
  have sub: "set (counted t window r k) \<subseteq> set ms"
    using counted_subset [of t window r k] by (simp add: ms_def)
  have old: "\<forall>(m, sec) \<in> set ms. 0 \<le> sec \<and> sec \<le> Unix T \<and>
            (\<exists>t'. 0 \<le> t' \<and> t' \<le> T \<and> m = Itoa t' @ ''-'' @ Itoa (Unix t'))"
    using inv by (simp add: limiter_inv_def Let_def ms_def)
  have fresh: "\<forall>(m, sec) \<in> set ms. m \<noteq> ?mem"
  proof (clarify)
    fix sec assume "(?mem, sec) \<in> set ms"
    then obtain t' where "0 \<le> t'" "t' \<le> T" "?mem = Itoa t' @ ''-'' @ Itoa (Unix t')"
      using old by fastforce
    then have "t = t'" using assms(3) member_inj by blast
    then show False using \<open>t' \<le> T\<close> assms(2) by simp
  qed
  then have "filter (\<lambda>(m, s). m \<noteq> ?mem) (counted t window r k) = counted t window r k"
    using sub by (auto simp: filter_id_conv)
  then have z': "zsets ?r' k = Some \<lparr>members = counted t window r k @ [(?mem, Unix t)],
                 z_expires = Some (t + (window + Minute))\<rparr>"
    using Allow_admits [OF admit assms(4)] by simp
  have a: "filter (\<lambda>sec. thr < sec) (map snd (counted t window r k @ [(?mem, Unix t)])) =
           filter (\<lambda>sec. thr < sec) (admitted @ [Unix t])"
    if "?thr \<le> thr" for thr
    using that by (auto simp: counted_scores [OF inv assms(2)] intro!: filter_cong)
  have b: "\<forall>(m, sec) \<in> set (counted t window r k @ [(?mem, Unix t)]). 0 \<le> sec \<and> sec \<le> Unix t \<and>
            (\<exists>t'. 0 \<le> t' \<and> t' \<le> t \<and> m = Itoa t' @ ''-'' @ Itoa (Unix t'))"
  proof -
    have "0 \<le> Unix t" using assms(3) by (simp add: Unix_def Second_def pos_imp_zdiv_nonneg_iff)
    moreover have "\<forall>(m, sec) \<in> set (counted t window r k). 0 \<le> sec \<and> sec \<le> Unix t \<and>
            (\<exists>t'. 0 \<le> t' \<and> t' \<le> t \<and> m = Itoa t' @ ''-'' @ Itoa (Unix t'))"
      using old sub T assms(2) by fastforce
    ultimately show ?thesis using assms(3) by auto
  qed
  have c: "\<forall>(m, sec) \<in> set (counted t window r k @ [(?mem, Unix t)]). time_Unix sec + window + Minute \<le> t + (window + Minute)"
  proof -
    have "time_Unix sec \<le> t" if "sec \<le> Unix t" for sec
      using that by (simp add: time_Unix_le_iff)
    then show ?thesis using b by fastforce
  qed
  show ?thesis
    unfolding limiter_inv_def Let_def
    using a b c by (simp add: z')
qed

text \<open>On every run with Redis answering, the limiter gives the verdicts of the sliding-window log.\<close>

lemma run_Allow_window_log:
  assumes "limiter_inv k window T r admitted"
    and "sorted_wrt (<) ts" and "\<forall>t \<in> set ts. T < t \<and> 0 \<le> t" and "0 < window + Minute"
  shows "run_Allow r k limit window ts = window_log limit window admitted ts"
  using assms
proof (induction ts arbitrary: r T admitted)
  case Nil
  then show ?case by simp
next
  case (Cons t ts)
  have t: "T < t" "0 \<le> t" using Cons.prems(3) by simp_all
  have later: "sorted_wrt (<) ts" "\<forall>u \<in> set ts. t < u \<and> 0 \<le> u"
    using Cons.prems(2,3) by auto
  let ?n = "int (length (counted t window r k))"
  have n: "?n = int (length (filter (\<lambda>sec. Unix (t - window) < sec) admitted))"
    using counted_scores [OF Cons.prems(1) t(1)] by (metis length_map)
  obtain b e r' where A: "Allow (answering t) r k limit window = ((b, e), r')"
    by (metis surj_pair)
  show ?case
  proof (cases "?n < limit")
    case True
    then have "b = True" using Allow_admits [OF True Cons.prems(4)] A by simp
    moreover have "limiter_inv k window t r' (admitted @ [Unix t])"
      using limiter_inv_admit [OF Cons.prems(1) t Cons.prems(4) True] A by simp
    then have "run_Allow r' k limit window ts = window_log limit window (admitted @ [Unix t]) ts"
      using Cons.IH later Cons.prems(4) by blast
    ultimately show ?thesis using A True n by simp
  next
    case False
    then have d: "limit \<le> ?n" by simp
    then have "b = False" using Allow_denies [OF d] A by simp
    moreover have "limiter_inv k window t r' admitted"
      using limiter_inv_deny [OF Cons.prems(1) t(1) d] A by simp
    then have "run_Allow r' k limit window ts = window_log limit window admitted ts"
      using Cons.IH later Cons.prems(4) by blast
    ultimately show ?thesis using A False n by simp
  qed
qed

lemma limiter_inv_empty: "zsets r k = None \<Longrightarrow> limiter_inv k window T r []"
  by (simp add: limiter_inv_def)

text \<open>The sliding-window log on requests that lie in one window.\<close>

lemma map_upt_Suc_shift: "map f [0..<Suc m] = f 0 # map (\<lambda>i. f (Suc i)) [0..<m]"
  by (simp add: upt_conv_Cons map_Suc_upt [symmetric] del: upt_Suc)

text \<open>Requests that all lie in one another's window are admitted until the log holds \<open>limit\<close> seconds.\<close>

lemma window_log_burst:
  assumes "\<forall>x \<in> set xs. (\<forall>sec \<in> set a. Unix (x - w) < sec) \<and> (\<forall>u \<in> set xs. Unix (x - w) < Unix u)"
  shows "window_log limit w a xs = map (\<lambda>i. int (length a + i) < limit) [0..<length xs]"
  using assms
proof (induction xs arbitrary: a)
  case Nil
  then show ?case by simp
next
  case (Cons x xs)
  have all: "filter (\<lambda>sec. Unix (x - w) < sec) a = a"
    using Cons.prems by (auto simp: filter_id_conv)
  show ?case
  proof (cases "int (length a) < limit")
    case True
    have "\<forall>y \<in> set xs. (\<forall>sec \<in> set (a @ [Unix x]). Unix (y - w) < sec) \<and> (\<forall>u \<in> set xs. Unix (y - w) < Unix u)"
      using Cons.prems by auto
    then have "window_log limit w (a @ [Unix x]) xs =
        map (\<lambda>i. int (length (a @ [Unix x]) + i) < limit) [0..<length xs]"
      by (rule Cons.IH)
    moreover have "map (\<lambda>i. int (length (a @ [Unix x]) + i) < limit) [0..<length xs] =
                   map (\<lambda>i. int (length a + Suc i) < limit) [0..<length xs]"
      by (intro map_cong) auto
    ultimately show ?thesis
      using True all by (auto simp add: map_upt_Suc_shift simp del: upt_Suc)
  next
    case False
    have "\<forall>y \<in> set xs. (\<forall>sec \<in> set a. Unix (y - w) < sec) \<and> (\<forall>u \<in> set xs. Unix (y - w) < Unix u)"
      using Cons.prems by auto
    then have "window_log limit w a xs = map (\<lambda>i. int (length a + i) < limit) [0..<length xs]"
      by (rule Cons.IH)
    moreover have "map (\<lambda>i. int (length a + i) < limit) [0..<length xs] =
                   map (\<lambda>i. int (length a + Suc i) < limit) [0..<length xs]"
      using False by (intro map_cong) auto
    ultimately show ?thesis
      using False all by (auto simp add: map_upt_Suc_shift simp del: upt_Suc)
  qed
qed

text \<open>After such a burst, a request made once the oldest logged second has left its window is admitted.\<close>

lemma window_log_readmits:
  assumes "0 < limit" and "int (length a) \<le> limit"
    and "(a \<noteq> [] \<and> hd a \<le> Unix (t - w)) \<or> (a = [] \<and> xs \<noteq> [] \<and> Unix (hd xs) \<le> Unix (t - w))"
    and "\<forall>x \<in> set xs. (\<forall>sec \<in> set a. Unix (x - w) < sec) \<and> (\<forall>u \<in> set xs. Unix (x - w) < Unix u)"
  shows "window_log limit w a (xs @ [t]) = window_log limit w a xs @ [True]"
  using assms
proof (induction xs arbitrary: a)
  case Nil
  then obtain b bs where a: "a = b # bs" "b \<le> Unix (t - w)"
    by (cases a) auto
  have f1: "int (length (filter (\<lambda>sec. Unix (t - w) < sec) a)) \<le> int (length bs)"
    using a by simp
  have f2: "int (length bs) + 1 \<le> limit"
    using Nil.prems(2) a by simp
  have "int (length (filter (\<lambda>sec. Unix (t - w) < sec) a)) < limit"
    using f1 f2 by linarith
  then show ?case by simp
next
  case (Cons x xs)
  have all: "filter (\<lambda>sec. Unix (x - w) < sec) a = a"
    using Cons.prems(4) by (auto simp: filter_id_conv)
  show ?case
  proof (cases "int (length a) < limit")
    case True
    have "window_log limit w (a @ [Unix x]) (xs @ [t]) = window_log limit w (a @ [Unix x]) xs @ [True]"
    proof (rule Cons.IH)
      show "0 < limit" by fact
      show "int (length (a @ [Unix x])) \<le> limit" using True by simp
      show "(a @ [Unix x] \<noteq> [] \<and> hd (a @ [Unix x]) \<le> Unix (t - w)) \<or>
            (a @ [Unix x] = [] \<and> xs \<noteq> [] \<and> Unix (hd xs) \<le> Unix (t - w))"
        using Cons.prems(3) by (cases a) auto
      show "\<forall>y \<in> set xs. (\<forall>sec \<in> set (a @ [Unix x]). Unix (y - w) < sec) \<and> (\<forall>u \<in> set xs. Unix (y - w) < Unix u)"
        using Cons.prems(4) by auto
    qed
    then show ?thesis using True all by simp
  next
    case False
    then have ne: "a \<noteq> []" using Cons.prems(1) by auto
    have "window_log limit w a (xs @ [t]) = window_log limit w a xs @ [True]"
    proof (rule Cons.IH)
      show "0 < limit" by fact
      show "int (length a) \<le> limit" by fact
      show "(a \<noteq> [] \<and> hd a \<le> Unix (t - w)) \<or> (a = [] \<and> xs \<noteq> [] \<and> Unix (hd xs) \<le> Unix (t - w))"
        using Cons.prems(3) ne by auto
      show "\<forall>y \<in> set xs. (\<forall>sec \<in> set a. Unix (y - w) < sec) \<and> (\<forall>u \<in> set xs. Unix (y - w) < Unix u)"
        using Cons.prems(4) by auto
    qed
    then show ?thesis using False all by simp
  qed
qed

text \<open>
  Claim C7, as amended. Time is counted in whole Unix seconds, as the scores of the
  entries are. For a fixed key that starts without entries, a positive window, Redis
  answering, and calls at clock readings that are not negative and strictly increase,
  the verdicts of \<open>Allow\<close> are those of a sliding-window log of seconds: a request at
  \<open>now\<close> is admitted exactly when fewer than \<open>limit\<close> admitted requests have a second
  after the second of \<open>now - window\<close>, because the entries scored up to that second
  are removed before counting and an admitted request adds one entry scored with its
  own second. So of requests whose seconds all lie within \<open>window\<close> of one another,
  the first \<open>limit\<close> are admitted and every later one is denied; and with a positive
  limit, a request made once the second of the oldest of them is no later than the
  second of \<open>now - window\<close> is admitted again.
\<close>

theorem Allow_is_a_sliding_window_log_of_seconds:
  assumes "zsets r k = None" and "0 < window"
    and "sorted_wrt (<) (ts @ [t])" and "\<forall>u \<in> set ts. 0 \<le> u"
  shows "run_Allow r k limit window ts = window_log limit window [] ts \<and>
         ((\<forall>x \<in> set ts. \<forall>u \<in> set ts. Unix (x - window) < Unix u)
            \<longrightarrow> run_Allow r k limit window ts = map (\<lambda>i. int i < limit) [0..<length ts]) \<and>
         ((\<forall>x \<in> set ts. \<forall>u \<in> set ts. Unix (x - window) < Unix u) \<and>
          ts \<noteq> [] \<and> 0 < limit \<and> Unix (hd ts) \<le> Unix (t - window)
            \<longrightarrow> run_Allow r k limit window (ts @ [t]) = run_Allow r k limit window ts @ [True])"
proof -
  have inv: "limiter_inv k window (- 1) r []"
    using assms(1) by (rule limiter_inv_empty)
  have w: "0 < window + Minute"
    using assms(2) by (simp add: Minute_def Second_def)
  have s1: "sorted_wrt (<) ts"
    using assms(3) by (simp add: sorted_wrt_append)
  have n1: "\<forall>u \<in> set ts. - 1 < u \<and> 0 \<le> u"
    using assms(4) by auto
  have a: "run_Allow r k limit window ts = window_log limit window [] ts"
    using run_Allow_window_log [OF inv s1 n1 w] .
  have b: "run_Allow r k limit window ts = map (\<lambda>i. int i < limit) [0..<length ts]"
    if "\<forall>x \<in> set ts. \<forall>u \<in> set ts. Unix (x - window) < Unix u"
    using that a window_log_burst [of ts "[]" window limit] by simp
  have c: "run_Allow r k limit window (ts @ [t]) = run_Allow r k limit window ts @ [True]"
    if burst: "\<forall>x \<in> set ts. \<forall>u \<in> set ts. Unix (x - window) < Unix u"
      and ne: "ts \<noteq> []" and l: "0 < limit" and old: "Unix (hd ts) \<le> Unix (t - window)"
  proof -
    have "hd ts < t" using assms(3) ne by (cases ts) (auto simp: sorted_wrt_append)
    moreover have "0 \<le> hd ts" using assms(4) ne by simp
    ultimately have n2: "\<forall>u \<in> set (ts @ [t]). - 1 < u \<and> 0 \<le> u"
      using n1 by auto
    have "run_Allow r k limit window (ts @ [t]) = window_log limit window [] (ts @ [t])"
      using run_Allow_window_log [OF inv assms(3) n2 w] .
    also have "\<dots> = window_log limit window [] ts @ [True]"
      using l ne old burst by (intro window_log_readmits) auto
    finally show ?thesis using a by simp
  qed
  show ?thesis
    using a b c by blast
qed

text \<open>
  The witness: limit 2 and a window of ten seconds; requests at 0.9, 1 and 2 seconds,
  and a fourth at 10.9 seconds.
\<close>

theorem Allow_is_a_sliding_window_log_of_seconds_witness:
  "zsets \<lparr>strings = Map.empty, zsets = Map.empty\<rparr> ''203.0.113.7'' = None \<and>
   0 < 10 * Second \<and>
   sorted_wrt (<) ([900000000, 1000000000, 2000000000] @ [10900000000 :: int]) \<and>
   list_all (\<lambda>u. 0 \<le> u) [900000000, 1000000000, 2000000000 :: int] \<and>
   list_all (\<lambda>x. list_all (\<lambda>u. Unix (x - 10 * Second) < Unix u) [900000000, 1000000000, 2000000000])
     [900000000, 1000000000, 2000000000] \<and>
   Unix (hd [900000000, 1000000000, 2000000000]) \<le> Unix (10900000000 - 10 * Second) \<and>
   run_Allow \<lparr>strings = Map.empty, zsets = Map.empty\<rparr> ''203.0.113.7'' 2 (10 * Second)
     [900000000, 1000000000, 2000000000] =
     window_log 2 (10 * Second) [] [900000000, 1000000000, 2000000000] \<and>
   run_Allow \<lparr>strings = Map.empty, zsets = Map.empty\<rparr> ''203.0.113.7'' 2 (10 * Second)
     [900000000, 1000000000, 2000000000] = [True, True, False] \<and>
   run_Allow \<lparr>strings = Map.empty, zsets = Map.empty\<rparr> ''203.0.113.7'' 2 (10 * Second)
     [900000000, 1000000000, 2000000000, 10900000000] = [True, True, False, True]"
proof -
  let ?r = "\<lparr>strings = Map.empty, zsets = Map.empty\<rparr>"
  let ?ts = "[900000000, 1000000000, 2000000000 :: int]"
  have h1: "zsets ?r ''203.0.113.7'' = None" by simp
  have h2: "0 < 10 * Second" by (simp add: Second_def)
  have h3: "sorted_wrt (<) (?ts @ [10900000000 :: int])" by simp
  have h4: "\<forall>u \<in> set ?ts. 0 \<le> u" by simp
  have h5: "\<forall>x \<in> set ?ts. \<forall>u \<in> set ?ts. Unix (x - 10 * Second) < Unix u"
    by (simp add: Unix_def Second_def)
  have h6: "Unix (hd ?ts) \<le> Unix (10900000000 - 10 * Second)"
    by (simp add: Unix_def Second_def)
  note T = Allow_is_a_sliding_window_log_of_seconds [OF h1 h2 h3 h4, of 2]
  have c1: "run_Allow ?r ''203.0.113.7'' 2 (10 * Second) ?ts = window_log 2 (10 * Second) [] ?ts"
    using T by blast
  have "run_Allow ?r ''203.0.113.7'' 2 (10 * Second) ?ts = map (\<lambda>i. int i < 2) [0..<length ?ts]"
    using T h5 by blast
  then have c2: "run_Allow ?r ''203.0.113.7'' 2 (10 * Second) ?ts = [True, True, False]"
    by (simp add: upt_rec)
  have "run_Allow ?r ''203.0.113.7'' 2 (10 * Second) (?ts @ [10900000000]) =
        run_Allow ?r ''203.0.113.7'' 2 (10 * Second) ?ts @ [True]"
    using T h5 h6 by simp
  then have c3: "run_Allow ?r ''203.0.113.7'' 2 (10 * Second) [900000000, 1000000000, 2000000000, 10900000000] =
      [True, True, False, True]"
    using c2 by simp
  have h4': "list_all (\<lambda>u. 0 \<le> u) ?ts" by simp
  have h5': "list_all (\<lambda>x. list_all (\<lambda>u. Unix (x - 10 * Second) < Unix u) ?ts) ?ts"
    by (simp add: Unix_def Second_def)
  show ?thesis
    using h1 h2 h3 h4' h5' h6 c1 c2 c3 by blast
qed

text \<open>
  The counterexample to C7 as stated, at finer than a second: with limit 1 and a window
  of ten seconds, a request at 0.9 seconds and a request at 10 seconds are both
  admitted, 9.1 seconds apart. The first is scored with the second 0, which the
  trimming at 10 seconds removes.
\<close>

theorem two_admitted_within_one_window:
  "run_Allow \<lparr>strings = Map.empty, zsets = Map.empty\<rparr> ''203.0.113.7'' 1 (10 * Second)
     [900000000, 10000000000] = [True, True] \<and>
   10000000000 - 900000000 < 10 * Second"
proof -
  let ?r = "\<lparr>strings = Map.empty, zsets = Map.empty\<rparr>"
  have inv: "limiter_inv ''203.0.113.7'' (10 * Second) (- 1) ?r []"
    by (rule limiter_inv_empty) simp
  have "run_Allow ?r ''203.0.113.7'' 1 (10 * Second) [900000000, 10000000000] =
        window_log 1 (10 * Second) [] [900000000, 10000000000]"
    by (rule run_Allow_window_log [OF inv]) (simp_all add: Second_def Minute_def)
  also have "\<dots> = [True, True]"
    by (simp add: Unix_def Second_def)
  finally show ?thesis by (simp add: Second_def)
qed

end
